theory Spec2Isabelle
  imports Complex_Main
begin

section \<open>JavaScript values\<close>

text \<open>
  The widget is JavaScript and works on whatever the host page or an imported file hands
  it, so payloads are modelled as untyped values. A number is a double: the model keeps
  the three non-finite values apart and takes the finite ones as rationals (every finite
  double is one; the two zeros are identified, both are falsy).
\<close>

datatype jsnum = NaN | PosInfinity | NegInfinity | Fin rat

datatype jsval =
    JUndefined
  | JNull
  | JBool bool
  | JNum jsnum
  | JStr string
  | JArr "jsval list"
  | JObj "(string \<times> jsval) list"

text \<open>Truthiness of a number: everything but \<open>NaN\<close> and zero.\<close>

definition num_truthy :: "jsnum \<Rightarrow> bool" where
  "num_truthy n \<longleftrightarrow> n \<noteq> NaN \<and> n \<noteq> Fin 0"

text \<open>\<open>ToBoolean\<close>: what \<open>!v\<close>, \<open>v || w\<close> and \<open>if (v)\<close> look at.\<close>

fun truthy :: "jsval \<Rightarrow> bool" where
  "truthy JUndefined = False"
| "truthy JNull = False"
| "truthy (JBool b) = b"
| "truthy (JNum n) = num_truthy n"
| "truthy (JStr s) = (s \<noteq> [])"
| "truthy (JArr xs) = True"
| "truthy (JObj kvs) = True"

text \<open>
  Reading a property, \<open>v.k\<close> for the five field names and \<open>zones\<close>: an object gives
  the bound value (an object is a list of bindings, the first one of a key counts),
  anything else and a missing key give \<open>undefined\<close>. With \<open>?.\<close> this also holds of
  \<open>null\<close> and \<open>undefined\<close>; the source reads a property without \<open>?.\<close> only after
  \<open>z?.geojson\<close> was truthy, so never on those two.
\<close>

fun getprop :: "jsval \<Rightarrow> string \<Rightarrow> jsval" where
  "getprop (JObj kvs) k = (case map_of kvs k of Some v \<Rightarrow> v | None \<Rightarrow> JUndefined)"
| "getprop v k = JUndefined"

fun isArray :: "jsval \<Rightarrow> bool" where
  "isArray (JArr xs) = True"
| "isArray v = False"

text \<open>\<open>a || b\<close> on values and on numbers.\<close>

definition or_else :: "jsval \<Rightarrow> jsval \<Rightarrow> jsval" where
  "or_else a b = (if truthy a then a else b)"

definition num_or_else :: "jsnum \<Rightarrow> jsnum \<Rightarrow> jsnum" where
  "num_or_else a b = (if num_truthy a then a else b)"

text \<open>The comparison \<open>a < b\<close> of two numbers: false as soon as one is \<open>NaN\<close>.\<close>

fun num_less :: "jsnum \<Rightarrow> jsnum \<Rightarrow> bool" where
  "num_less NaN b = False"
| "num_less a NaN = False"
| "num_less PosInfinity b = False"
| "num_less a NegInfinity = False"
| "num_less NegInfinity b = True"
| "num_less a PosInfinity = True"
| "num_less (Fin x) (Fin y) = (x < y)"

text \<open>\<open>Math.min(a, b)\<close>: \<open>NaN\<close> if either is, else the smaller.\<close>

definition Math_min :: "jsnum \<Rightarrow> jsnum \<Rightarrow> jsnum" where
  "Math_min a b = (if a = NaN \<or> b = NaN then NaN else if num_less b a then b else a)"

text \<open>
  \<open>Number(v)\<close>. On \<open>undefined\<close>, \<open>null\<close>, booleans and numbers it is fixed by the
  language; on strings, arrays and objects it goes through the engine's string parsing,
  which is taken as the parameter \<open>conv\<close>.
\<close>

fun Number :: "(jsval \<Rightarrow> jsnum) \<Rightarrow> jsval \<Rightarrow> jsnum" where
  "Number conv JUndefined = NaN"
| "Number conv JNull = Fin 0"
| "Number conv (JBool b) = Fin (if b then 1 else 0)"
| "Number conv (JNum n) = n"
| "Number conv v = conv v"

text \<open>
  \<open>xs.slice(0, e)\<close> for an integer \<open>e\<close>: a negative end counts from the end of the
  array, and both ends are clamped to the array.
\<close>

definition slice0 :: "'a list \<Rightarrow> int \<Rightarrow> 'a list" where
  "slice0 xs e = (if e < 0 then take (nat (int (length xs) + e)) xs else take (nat e) xs)"

text \<open>\<open>n.toString(16)\<close> for a non-negative integer.\<close>

definition hexdigit :: "nat \<Rightarrow> char" where
  "hexdigit d = ''0123456789abcdef'' ! d"

function toString16 :: "nat \<Rightarrow> string" where
  "toString16 n = (if n < 16 then [hexdigit n] else toString16 (n div 16) @ [hexdigit (n mod 16)])"
  by pat_completeness auto
termination
  by (relation "measure (\<lambda>n. n)") auto

declare toString16.simps [simp del]

text \<open>
  \<open>JSON.parse(JSON.stringify(v))\<close>, on values: what is left of \<open>v\<close> once it has been
  written to a file and read back. \<open>undefined\<close> is not written at all (\<open>None\<close>): a
  property with that value is left out, an array element becomes \<open>null\<close>. \<open>NaN\<close> and the
  infinities are written as \<open>null\<close>. Of an object only the properties themselves are
  written, that is the first binding of each key.
\<close>

fun null_if_omitted :: "jsval option \<Rightarrow> jsval" where
  "null_if_omitted None = JNull"
| "null_if_omitted (Some v) = v"

fun written_props :: "string list \<Rightarrow> (string \<times> jsval option) list \<Rightarrow> (string \<times> jsval) list" where
  "written_props seen [] = []"
| "written_props seen ((k, w) # rest) =
     (if k \<in> set seen then written_props seen rest
      else case w of
             None \<Rightarrow> written_props (k # seen) rest
           | Some v \<Rightarrow> (k, v) # written_props (k # seen) rest)"

primrec JSON_copy :: "jsval \<Rightarrow> jsval option" where
  "JSON_copy JUndefined = None"
| "JSON_copy JNull = Some JNull"
| "JSON_copy (JBool b) = Some (JBool b)"
| "JSON_copy (JNum n) = Some (case n of Fin r \<Rightarrow> JNum (Fin r) | _ \<Rightarrow> JNull)"
| "JSON_copy (JStr s) = Some (JStr s)"
| "JSON_copy (JArr xs) = Some (JArr (map null_if_omitted (map JSON_copy xs)))"
| "JSON_copy (JObj kvs) = Some (JObj (written_props [] (map (map_prod id JSON_copy) kvs)))"

section \<open>Zones and the collaborators\<close>

text \<open>A stored zone, \<open>{ id, createdAt, geojson, center, zoom }\<close>.\<close>

record zone =
  zone_id :: jsval
  createdAt :: jsnum
  geojson :: jsval
  center :: jsval
  zoom :: jsnum

text \<open>
  What the code observes of a Leaflet \<open>LatLngBounds\<close>: \<open>isValid()\<close> and, of a valid
  one, \<open>getCenter().lat\<close> and \<open>getCenter().lng\<close>. Of a layer built by \<open>L.geoJSON\<close> it
  observes \<open>getBounds()\<close>, \<open>None\<close> when that call throws.
\<close>

record bounds =
  isValid :: bool
  center_lat :: jsnum
  center_lng :: jsnum

datatype layer = Layer "bounds option"

text \<open>
  The surroundings of the widget that its results depend on:
  \<^item> the engine's \<open>Number\<close> on strings and objects;
  \<^item> \<open>L.geoJSON(g)\<close>, \<open>None\<close> when it throws (or Leaflet is not loaded);
  \<^item> whether \<open>setView(center, zoom)\<close> of a Leaflet map accepts its arguments or throws;
  \<^item> whether \<open>L.map(miniId)\<close> finds an unused container for the card of a zone id,
    given the ids of the cards already in the grid.
\<close>

record env =
  toNumber :: "jsval \<Rightarrow> jsnum"
  geoJSON :: "jsval \<Rightarrow> layer option"
  setView_ok :: "jsval \<Rightarrow> jsnum \<Rightarrow> bool"
  container_ok :: "jsval list \<Rightarrow> jsval \<Rightarrow> bool"

text \<open>
  What \<open>Math.random().toString(16).slice(2)\<close> and \<open>Date.now()\<close> return while one zone
  is built: the clock is read once for the id and once for \<open>createdAt\<close>.
\<close>

record tick =
  rnd :: string
  idNow :: nat
  now :: nat

text \<open>
  What a call can throw: the two errors of \<open>normalizeImport\<close>, the one of
  \<open>JSON.parse\<close>, and whatever a Leaflet call throws.
\<close>

datatype error = InvalidFormat | MissingGeometry | SyntaxError | LeafletError

text \<open>\<open>"z_" + Math.random().toString(16).slice(2) + "_" + Date.now().toString(16)\<close>\<close>

definition makeId :: "tick \<Rightarrow> jsval" where
  "makeId t = JStr (''z_'' @ rnd t @ ''_'' @ toString16 (idNow t))"

definition fallback_center :: jsval where
  "fallback_center = JArr [JNum (Fin (43238949 / 1000000)), JNum (Fin (76889709 / 1000000))]"

text \<open>
  \<open>safeBoundsFromGeo\<close>: the bounds of the geometry if Leaflet builds a layer from it and
  its bounds are valid, \<open>null\<close> otherwise and when anything throws.
\<close>

definition safeBoundsFromGeo :: "env \<Rightarrow> jsval \<Rightarrow> bounds option" where
  "safeBoundsFromGeo E g =
     (case geoJSON E g of
        None \<Rightarrow> None
      | Some (Layer None) \<Rightarrow> None
      | Some (Layer (Some b)) \<Rightarrow> if isValid b then Some b else None)"

section \<open>normalizeImport\<close>

text \<open>The first \<open>map\<close> callback: one raw entry to a zone, or the throw.\<close>

definition import_entry :: "env \<Rightarrow> tick \<Rightarrow> jsval \<Rightarrow> error + zone" where
  "import_entry E t z =
     (if \<not> truthy (getprop z ''geojson'') then Inl MissingGeometry
      else Inr \<lparr>
        zone_id = or_else (getprop z ''id'') (makeId t),
        createdAt = num_or_else (Number (toNumber E) (getprop z ''createdAt'')) (Fin (of_nat (now t))),
        geojson = getprop z ''geojson'',
        center = (if isArray (getprop z ''center'') then getprop z ''center'' else JNull),
        zoom = num_or_else (Number (toNumber E) (getprop z ''zoom'')) (Fin 14) \<rparr>)"

text \<open>
  \<open>Array.prototype.map\<close> with a callback that may throw: entries are visited in order,
  the first throw ends the call. \<open>ts i\<close> is the tick while entry \<open>i\<close> is built.
\<close>

fun import_entries :: "env \<Rightarrow> (nat \<Rightarrow> tick) \<Rightarrow> nat \<Rightarrow> jsval list \<Rightarrow> error + zone list" where
  "import_entries E ts i [] = Inr []"
| "import_entries E ts i (z # zs) =
     (case import_entry E (ts i) z of
        Inl e \<Rightarrow> Inl e
      | Inr r \<Rightarrow> (case import_entries E ts (Suc i) zs of
                    Inl e \<Rightarrow> Inl e
                  | Inr rs \<Rightarrow> Inr (r # rs)))"

text \<open>
  The second \<open>map\<close> callback: a zone without a center gets one, from the bounds of its
  geometry (the same \<open>try\<close> as in \<open>safeBoundsFromGeo\<close>, written out again in the source)
  or else the fixed coordinate.
\<close>

definition infer_center :: "env \<Rightarrow> zone \<Rightarrow> zone" where
  "infer_center E z =
     (if truthy (center z) then z
      else let z1 = (case geoJSON E (geojson z) of
                       Some (Layer (Some b)) \<Rightarrow>
                         if isValid b
                         then z\<lparr>center := JArr [JNum (center_lat b), JNum (center_lng b)]\<rparr>
                         else z
                     | _ \<Rightarrow> z)
           in if \<not> truthy (center z1) then z1\<lparr>center := fallback_center\<rparr> else z1)"

text \<open>\<open>Array.isArray(payload) ? payload : payload?.zones\<close>\<close>

definition raw_zones :: "jsval \<Rightarrow> jsval" where
  "raw_zones payload = (if isArray payload then payload else getprop payload ''zones'')"

definition normalizeImport :: "env \<Rightarrow> (nat \<Rightarrow> tick) \<Rightarrow> jsval \<Rightarrow> int \<Rightarrow> error + zone list" where
  "normalizeImport E ts payload lmt =
     (case raw_zones payload of
        JArr xs \<Rightarrow> (case import_entries E ts 0 (slice0 xs lmt) of
                      Inl e \<Rightarrow> Inl e
                    | Inr zs \<Rightarrow> Inr (map (infer_center E) zs))
      | _ \<Rightarrow> Inl InvalidFormat)"

section \<open>The editor widget\<close>

text \<open>
  The options the behaviour depends on. \<open>limit\<close> is the zone-count limit, taken as an
  integer (the code compares a length with it and passes it to \<open>slice\<close>).
\<close>

record options =
  limit :: int
  opt_center :: jsval
  opt_zoom :: jsnum
  opt_mode :: jsval

text \<open>
  The main map's last navigation request, \<open>map.fitBounds(b, { padding: [p, q] })\<close> or
  \<open>map.setView(center, zoom)\<close>, and the message in the hint line (its three standing
  texts, the import report and the import error).
\<close>

datatype view_target = FitBounds bounds nat nat | SetView jsval jsnum

datatype hint_msg =
    LimitReachedHint
  | DrawHint
  | ViewModeHint
  | ImportDoneHint nat
  | ImportErrorHint error

text \<open>
  \<open>state.mode\<close> and \<open>state.zones\<close>, with what the page shows of them: the hint and its
  \<open>warn\<close> class, whether the drawing toolbar is hidden (class \<open>zw-draw-hidden\<close>), and
  where the main map looks. The layers and mini maps themselves are not part of the
  state; whether drawing them goes through is.
\<close>

record state =
  mode :: jsval
  zones :: "zone list"
  hint :: hint_msg
  warn :: bool
  drawHidden :: bool
  view :: view_target

text \<open>
  How a handler or a call of the host interface ends: it returns, or an exception leaves
  it. Either way the widget is left in a state.
\<close>

datatype outcome = Done state | Threw error state

fun state_of :: "outcome \<Rightarrow> state" where
  "state_of (Done s) = s"
| "state_of (Threw e s) = s"

text \<open>\<open>xs[i]\<close>: \<open>undefined\<close> out of range.\<close>

definition elem_at :: "'a list \<Rightarrow> int \<Rightarrow> 'a option" where
  "elem_at xs i = (if 0 \<le> i \<and> i < int (length xs) then Some (xs ! nat i) else None)"

text \<open>\<open>xs.findIndex(P)\<close> and \<open>xs.splice(i, 1)\<close> for \<open>i \<ge> 0\<close>.\<close>

fun findIndex :: "('a \<Rightarrow> bool) \<Rightarrow> 'a list \<Rightarrow> int" where
  "findIndex P [] = - 1"
| "findIndex P (x # xs) =
     (if P x then 0 else (let i = findIndex P xs in if i < 0 then - 1 else i + 1))"

definition splice1 :: "'a list \<Rightarrow> int \<Rightarrow> 'a list" where
  "splice1 xs i = take (nat i) xs @ drop (Suc (nat i)) xs"

text \<open>
  \<open>focusZone\<close>. \<open>map.setView\<close> is called outside any \<open>try\<close>, so what it throws leaves
  the function; \<open>map.fitBounds\<close> is only called with valid bounds, which it accepts.
\<close>

fun focusZone :: "env \<Rightarrow> zone option \<Rightarrow> state \<Rightarrow> outcome" where
  "focusZone E None s = Done s"
| "focusZone E (Some z) s =
     (case safeBoundsFromGeo E (geojson z) of
        Some b \<Rightarrow> Done (s\<lparr>view := FitBounds b 30 30\<rparr>)
      | None \<Rightarrow>
          if setView_ok E (center z) (num_or_else (zoom z) (Fin 14))
          then Done (s\<lparr>view := SetView (center z) (num_or_else (zoom z) (Fin 14))\<rparr>)
          else Threw LeafletError s)"

text \<open>
  The id comes from a \<open>data-zone\<close> attribute or from the host as a string, and
  \<open>z.id === id\<close> holds of a string exactly when \<open>z.id\<close> is that string.
\<close>

definition focusZoneById :: "env \<Rightarrow> string \<Rightarrow> state \<Rightarrow> outcome" where
  "focusZoneById E i s = focusZone E (List.find (\<lambda>z. zone_id z = JStr i) (zones s)) s"

text \<open>
  \<open>renderZonesOnMain\<close> builds \<open>L.geoJSON(z.geojson)\<close> for every zone, outside any
  \<open>try\<close>: it runs through if Leaflet builds all of them.
\<close>

definition renderZonesOnMain :: "env \<Rightarrow> zone list \<Rightarrow> bool" where
  "renderZonesOnMain E zs = list_all (\<lambda>z. geoJSON E (geojson z) \<noteq> None) zs"

text \<open>
  \<open>renderGrid\<close> makes one card per zone, in order: \<open>L.map(miniId)\<close> on the card's
  container, \<open>setView(z.center, z.zoom)\<close>, \<open>L.geoJSON(z.geojson)\<close>, all outside any
  \<open>try\<close> (fitting the mini map to the bounds is inside one). \<open>seen\<close> are the ids of
  the cards made so far.
\<close>

fun render_cards :: "env \<Rightarrow> jsval list \<Rightarrow> zone list \<Rightarrow> bool" where
  "render_cards E seen [] = True"
| "render_cards E seen (z # zs) =
     (container_ok E seen (zone_id z) \<and> setView_ok E (center z) (zoom z) \<and>
      geoJSON E (geojson z) \<noteq> None \<and> render_cards E (seen @ [zone_id z]) zs)"

definition renderGrid :: "env \<Rightarrow> zone list \<Rightarrow> bool" where
  "renderGrid E zs = render_cards E [] zs"

definition applyDrawAvailability :: "options \<Rightarrow> state \<Rightarrow> state" where
  "applyDrawAvailability opts s =
     (let limitReached = (int (length (zones s)) \<ge> limit opts);
          showDrawUI = (mode s = JStr ''edit'' \<and> \<not> limitReached)
      in s\<lparr> drawHidden := \<not> showDrawUI,
             hint := (if mode s = JStr ''edit'' \<and> limitReached then LimitReachedHint
                      else if mode s = JStr ''edit'' then DrawHint
                      else ViewModeHint),
             warn := (mode s = JStr ''edit'' \<and> limitReached) \<rparr>)"

text \<open>
  \<open>applyMode\<close>: the draw control is put on or off the map, then \<open>renderZonesOnMain\<close>,
  \<open>renderGrid\<close> and \<open>applyDrawAvailability\<close> in this order. When one of the two
  redraws throws, \<open>applyDrawAvailability\<close> is not reached.
\<close>

definition applyMode :: "env \<Rightarrow> options \<Rightarrow> state \<Rightarrow> outcome" where
  "applyMode E opts s =
     (if renderZonesOnMain E (zones s) \<and> renderGrid E (zones s)
      then Done (applyDrawAvailability opts s)
      else Threw LeafletError s)"

text \<open>
  What a finished drawing brings: \<open>evt.layer.toGeoJSON()\<close>, the main map's
  \<open>getCenter()\<close> and \<open>getZoom()\<close>, and the tick.
\<close>

record draw =
  layer_geo :: jsval
  map_center_lat :: jsnum
  map_center_lng :: jsnum
  map_zoom :: jsnum
  draw_tick :: tick

text \<open>The handler of \<open>L.Draw.Event.CREATED\<close>.\<close>

definition on_created :: "env \<Rightarrow> options \<Rightarrow> draw \<Rightarrow> state \<Rightarrow> outcome" where
  "on_created E opts d s =
     (if mode s \<noteq> JStr ''edit'' then Done s
      else if int (length (zones s)) \<ge> limit opts then Done (applyDrawAvailability opts s)
      else
        let geo = layer_geo d;
            c = (case safeBoundsFromGeo E geo of
                   Some b \<Rightarrow> JArr [JNum (center_lat b), JNum (center_lng b)]
                 | None \<Rightarrow> JArr [JNum (map_center_lat d), JNum (map_center_lng d)]);
            zm = Math_min (map_zoom d) (Fin 17);
            s1 = s\<lparr>zones := zones s @
                   [\<lparr> zone_id = makeId (draw_tick d),
                      createdAt = Fin (of_nat (now (draw_tick d))),
                      geojson = geo,
                      center = c,
                      zoom = zm \<rparr>]\<rparr>
        in case applyMode E opts s1 of
             Threw e s' \<Rightarrow> Threw e s'
           | Done s2 \<Rightarrow> focusZone E (elem_at (zones s2) (int (length (zones s2)) - 1)) s2)"

text \<open>The click handler of the grid: on a delete button, on a card, elsewhere.\<close>

datatype click = OnDel string | OnCard string | Elsewhere

fun on_grid_click :: "env \<Rightarrow> options \<Rightarrow> click \<Rightarrow> state \<Rightarrow> outcome" where
  "on_grid_click E opts (OnDel i) s =
     (if mode s \<noteq> JStr ''edit'' then Done s
      else
        let idx = findIndex (\<lambda>z. zone_id z = JStr i) (zones s);
            s1 = (if idx \<ge> 0 then s\<lparr>zones := splice1 (zones s) idx\<rparr> else s)
        in applyMode E opts s1)"
| "on_grid_click E opts (OnCard i) s = focusZoneById E i s"
| "on_grid_click E opts Elsewhere s = Done s"

text \<open>
  The export button: the payload handed to \<open>downloadJson\<close>, nothing in view mode, and
  the content of the file that \<open>downloadJson\<close> writes with \<open>JSON.stringify\<close>, as the
  value a later \<open>JSON.parse\<close> reads from it. \<open>isoNow\<close> is \<open>new Date().toISOString()\<close>.
\<close>

definition zone_value :: "zone \<Rightarrow> jsval" where
  "zone_value z = JObj [(''id'', zone_id z), (''createdAt'', JNum (createdAt z)),
     (''geojson'', geojson z), (''center'', center z), (''zoom'', JNum (zoom z))]"

definition envelope :: "options \<Rightarrow> string \<Rightarrow> zone list \<Rightarrow> jsval" where
  "envelope opts isoNow zs =
     JObj [(''version'', JNum (Fin 1)),
           (''exportedAt'', JStr isoNow),
           (''meta'', JObj [(''limit'', JNum (Fin (of_int (limit opts)))),
                           (''center'', opt_center opts),
                           (''zoom'', JNum (opt_zoom opts))]),
           (''zones'', JArr (map zone_value zs))]"

definition export_payload :: "options \<Rightarrow> string \<Rightarrow> state \<Rightarrow> jsval option" where
  "export_payload opts isoNow s =
     (if mode s \<noteq> JStr ''edit'' then None else Some (envelope opts isoNow (zones s)))"


text \<open>
  The file input's change handler. What was picked: nothing, a file whose text
  \<open>JSON.parse\<close> rejects, or a file that parses to a value. The handler awaits the
  file's text between the mode check and the rest; it is taken as one step here. All
  that follows the check is inside one \<open>try\<close>, whose \<open>catch\<close> shows the error: the
  handler itself never throws, but a redraw that throws comes after the assignment to
  \<open>state.zones\<close>.
\<close>

datatype picked = NoFile | Unparsable | Parsed jsval

definition on_import :: "env \<Rightarrow> options \<Rightarrow> picked \<Rightarrow> (nat \<Rightarrow> tick) \<Rightarrow> state \<Rightarrow> state" where
  "on_import E opts f ts s =
     (if mode s \<noteq> JStr ''edit'' then s
      else case f of
        NoFile \<Rightarrow> s
      | Unparsable \<Rightarrow> s\<lparr>hint := ImportErrorHint SyntaxError, warn := True\<rparr>
      | Parsed json \<Rightarrow>
          (case normalizeImport E ts json (limit opts) of
             Inl e \<Rightarrow> s\<lparr>hint := ImportErrorHint e, warn := True\<rparr>
           | Inr imported \<Rightarrow>
               (case applyMode E opts (s\<lparr>zones := imported\<rparr>) of
                  Threw e s' \<Rightarrow> s'\<lparr>hint := ImportErrorHint e, warn := True\<rparr>
                | Done s2 \<Rightarrow>
                    (case focusZone E (elem_at (zones s2) 0) s2 of
                       Threw e s' \<Rightarrow> s'\<lparr>hint := ImportErrorHint e, warn := True\<rparr>
                     | Done s3 \<Rightarrow>
                         s3\<lparr>hint := ImportDoneHint (length (zones s3)), warn := False\<rparr>))))"

definition on_clear :: "env \<Rightarrow> options \<Rightarrow> state \<Rightarrow> outcome" where
  "on_clear E opts s =
     (if mode s \<noteq> JStr ''edit'' then Done s else applyMode E opts (s\<lparr>zones := []\<rparr>))"

definition on_toggle :: "env \<Rightarrow> options \<Rightarrow> state \<Rightarrow> outcome" where
  "on_toggle E opts s =
     applyMode E opts
       (s\<lparr>mode := (if mode s = JStr ''edit'' then JStr ''view'' else JStr ''edit'')\<rparr>)"

text \<open>
  The object \<open>mount\<close> returns to the host: \<open>setMode\<close>, \<open>setZones\<close>, \<open>getZones\<close>,
  \<open>focus\<close>.
\<close>

definition setMode :: "env \<Rightarrow> options \<Rightarrow> jsval \<Rightarrow> state \<Rightarrow> outcome" where
  "setMode E opts newMode s =
     applyMode E opts
       (s\<lparr>mode := (if newMode = JStr ''view'' then JStr ''view'' else JStr ''edit'')\<rparr>)"

text \<open>
  \<open>setZones\<close> lets the throw of \<open>normalizeImport\<close> through, before the assignment, and
  the throw of the redraw, after it.
\<close>

definition setZones :: "env \<Rightarrow> options \<Rightarrow> jsval \<Rightarrow> (nat \<Rightarrow> tick) \<Rightarrow> state \<Rightarrow> outcome" where
  "setZones E opts zonesPayload ts s =
     (case normalizeImport E ts zonesPayload (limit opts) of
        Inl e \<Rightarrow> Threw e s
      | Inr zs \<Rightarrow> applyMode E opts (s\<lparr>zones := zs\<rparr>))"

definition getZones :: "state \<Rightarrow> jsval option" where
  "getZones s = JSON_copy (JArr (map zone_value (zones s)))"

definition focus :: "env \<Rightarrow> string \<Rightarrow> state \<Rightarrow> outcome" where
  "focus E i s = focusZoneById E i s"

text \<open>The state when \<open>mount\<close> returns: the first \<open>applyMode\<close> has no zone to draw.\<close>

definition mount :: "env \<Rightarrow> options \<Rightarrow> state" where
  "mount E opts =
     state_of (applyMode E opts
       \<lparr> mode = opt_mode opts, zones = [], hint = ViewModeHint, warn = False,
         drawHidden = False, view = SetView (opt_center opts) (opt_zoom opts) \<rparr>)"

text \<open>
  Everything that can happen to a mounted widget, and the state it leaves the widget
  in, whether the handler returns or throws.
\<close>

datatype event =
    Created draw
  | GridClick click
  | ExportClick
  | ImportChange picked "nat \<Rightarrow> tick"
  | ClearAll
  | ToggleMode
  | SetMode jsval
  | SetZones jsval "nat \<Rightarrow> tick"
  | Focus string

fun step :: "env \<Rightarrow> options \<Rightarrow> event \<Rightarrow> state \<Rightarrow> state" where
  "step E opts (Created d) s = state_of (on_created E opts d s)"
| "step E opts (GridClick c) s = state_of (on_grid_click E opts c s)"
| "step E opts ExportClick s = s"
| "step E opts (ImportChange f ts) s = on_import E opts f ts s"
| "step E opts ClearAll s = state_of (on_clear E opts s)"
| "step E opts ToggleMode s = state_of (on_toggle E opts s)"
| "step E opts (SetMode m) s = state_of (setMode E opts m s)"
| "step E opts (SetZones p ts) s = state_of (setZones E opts p ts s)"
| "step E opts (Focus i) s = state_of (focus E i s)"

inductive reachable :: "env \<Rightarrow> options \<Rightarrow> state \<Rightarrow> bool" for E opts where
  mounted: "reachable E opts (mount E opts)"
| stepped: "reachable E opts s \<Longrightarrow> reachable E opts (step E opts e s)"

text \<open>
  The draw tools are the polygon and the rectangle, and the GeoJSON of either has valid
  bounds. An event is a drawing of that kind, or no drawing at all.
\<close>

fun drawn_with_bounds :: "env \<Rightarrow> event \<Rightarrow> bool" where
  "drawn_with_bounds E (Created d) = (safeBoundsFromGeo E (layer_geo d) \<noteq> None)"
| "drawn_with_bounds E e = True"

inductive reachable_by_tools :: "env \<Rightarrow> options \<Rightarrow> state \<Rightarrow> bool" for E opts where
  tools_mounted: "reachable_by_tools E opts (mount E opts)"
| tools_stepped: "reachable_by_tools E opts s \<Longrightarrow> drawn_with_bounds E e \<Longrightarrow>
     reachable_by_tools E opts (step E opts e s)"

section \<open>Kinds of zones\<close>

text \<open>
  The fields of a zone as \<open>normalizeImport\<close> itself leaves them: an id and a geometry
  that are truthy, a \<open>createdAt\<close> and a \<open>zoom\<close> other than \<open>0\<close> and \<open>NaN\<close>, an array as
  \<open>center\<close>.
\<close>

definition stable_zone :: "zone \<Rightarrow> bool" where
  "stable_zone z \<longleftrightarrow>
     truthy (zone_id z) \<and> num_truthy (createdAt z) \<and> truthy (geojson z) \<and>
     isArray (center z) \<and> num_truthy (zoom z)"

text \<open>
  A zone that a JSON file carries as it is: finite numbers as \<open>createdAt\<close> and \<open>zoom\<close>,
  and an id, a geometry and a center that \<open>JSON.stringify\<close> and \<open>JSON.parse\<close> give back
  unchanged.
\<close>

fun finite_num :: "jsnum \<Rightarrow> bool" where
  "finite_num (Fin r) = True"
| "finite_num n = False"

definition json_value :: "jsval \<Rightarrow> bool" where
  "json_value v \<longleftrightarrow> JSON_copy v = Some v"


text \<open>
  A zone the main map can be brought to: Leaflet finds valid bounds for its geometry,
  or else it has a zoom (other than \<open>0\<close> and \<open>NaN\<close>) and a center that \<open>setView\<close>
  accepts with that zoom.
\<close>

definition well_formed :: "env \<Rightarrow> zone \<Rightarrow> bool" where
  "well_formed E z \<longleftrightarrow>
     safeBoundsFromGeo E (geojson z) \<noteq> None \<or>
     (num_truthy (zoom z) \<and> setView_ok E (center z) (zoom z))"

text \<open>The part of it that every zone of the widget has: bounds, or a zoom.\<close>

definition bounds_or_zoom :: "env \<Rightarrow> zone \<Rightarrow> bool" where
  "bounds_or_zoom E z \<longleftrightarrow> safeBoundsFromGeo E (geojson z) \<noteq> None \<or> num_truthy (zoom z)"

section \<open>Sample data\<close>

text \<open>
  Concrete surroundings to run the definitions on. Two geometries: a square polygon
  around (43, 77), for which Leaflet builds a layer with valid bounds, and a feature whose
  geometry is \<open>null\<close>, for which it builds an empty layer, whose bounds are not valid; for
  anything else \<open>L.geoJSON\<close> throws here. \<open>setView\<close> accepts a pair of finite numbers
  with a finite zoom, \<open>L.map\<close> a card whose id no earlier card has. The engine's
  \<open>Number\<close> answers \<open>NaN\<close> on strings and objects (the samples convert none).
\<close>

definition sample_geo :: jsval where
  "sample_geo = JObj [(''type'', JStr ''Feature''), (''properties'', JObj []),
     (''geometry'', JObj [(''type'', JStr ''Polygon''),
        (''coordinates'', JArr [JArr [
           JArr [JNum (Fin 76), JNum (Fin 42)], JArr [JNum (Fin 78), JNum (Fin 42)],
           JArr [JNum (Fin 78), JNum (Fin 44)], JArr [JNum (Fin 76), JNum (Fin 44)],
           JArr [JNum (Fin 76), JNum (Fin 42)]]])])]"

definition empty_geo :: jsval where
  "empty_geo = JObj [(''type'', JStr ''Feature''), (''properties'', JObj []),
     (''geometry'', JNull)]"

definition sample_bounds :: bounds where
  "sample_bounds = \<lparr> isValid = True, center_lat = Fin 43, center_lng = Fin 77 \<rparr>"

definition no_bounds :: bounds where
  "no_bounds = \<lparr> isValid = False, center_lat = NaN, center_lng = NaN \<rparr>"

fun lat_lng_pair :: "jsval \<Rightarrow> bool" where
  "lat_lng_pair (JArr [JNum (Fin a), JNum (Fin b)]) = True"
| "lat_lng_pair v = False"

definition sample_env :: env where
  "sample_env = \<lparr>
     toNumber = (\<lambda>v. NaN),
     geoJSON = (\<lambda>g. if g = sample_geo then Some (Layer (Some sample_bounds))
                     else if g = empty_geo then Some (Layer (Some no_bounds))
                     else None),
     setView_ok = (\<lambda>c z. lat_lng_pair c \<and> finite_num z),
     container_ok = (\<lambda>seen i. i \<notin> set seen) \<rparr>"

definition sample_ticks :: "nat \<Rightarrow> tick" where
  "sample_ticks i = \<lparr> rnd = ''a3f'', idNow = 26 + i, now = 26 + i \<rparr>"

definition sample_opts :: options where
  "sample_opts = \<lparr> limit = 2, opt_center = fallback_center, opt_zoom = Fin 12,
                    opt_mode = JStr ''edit'' \<rparr>"

definition view_opts :: options where
  "view_opts = sample_opts \<lparr> opt_mode := JStr ''view'' \<rparr>"

definition sample_draw :: draw where
  "sample_draw = \<lparr> layer_geo = sample_geo, map_center_lat = Fin 43, map_center_lng = Fin 76,
                    map_zoom = Fin 12, draw_tick = sample_ticks 0 \<rparr>"

text \<open>The zone that drawing stores, and a zone without valid bounds, as an import brings it.\<close>

definition sample_zone :: zone where
  "sample_zone = \<lparr> zone_id = JStr ''z_a3f_1a'', createdAt = Fin 26, geojson = sample_geo,
                    center = JArr [JNum (Fin 43), JNum (Fin 77)], zoom = Fin 12 \<rparr>"

definition other_zone :: zone where
  "other_zone = \<lparr> zone_id = JStr ''z_b07_2c'', createdAt = Fin 44, geojson = empty_geo,
                   center = JArr [JNum (Fin 43), JNum (Fin 76)], zoom = Fin 13 \<rparr>"

text \<open>
  The widget after one drawing of the square, and after \<open>setZones\<close> with the two zones
  on a freshly mounted widget.
\<close>

definition drawn_state :: state where
  "drawn_state = state_of (on_created sample_env sample_opts sample_draw (mount sample_env sample_opts))"

definition two_zone_state :: state where
  "two_zone_state = state_of (setZones sample_env sample_opts
     (JArr [zone_value sample_zone, zone_value other_zone]) sample_ticks
     (mount sample_env sample_opts))"

text \<open>The widget after a file with the two zones was imported on mounting.\<close>

definition imported_state :: state where
  "imported_state = on_import sample_env sample_opts
     (Parsed (JArr [zone_value sample_zone, zone_value other_zone])) sample_ticks
     (mount sample_env sample_opts)"


section \<open>What the handlers leave alone\<close>

lemma applyDrawAvailability_keeps [simp]:
  "zones (applyDrawAvailability opts s) = zones s"
  "mode (applyDrawAvailability opts s) = mode s"
  "view (applyDrawAvailability opts s) = view s"
  by (simp_all add: applyDrawAvailability_def Let_def)

lemma applyMode_keeps [simp]:
  "zones (state_of (applyMode E opts s)) = zones s"
  "mode (state_of (applyMode E opts s)) = mode s"
  "view (state_of (applyMode E opts s)) = view s"
  by (simp_all add: applyMode_def)

lemma applyMode_cases:
  "applyMode E opts s = Done (applyDrawAvailability opts s) \<or> applyMode E opts s = Threw LeafletError s"
  by (simp add: applyMode_def)

lemma applyMode_empty: "zones s = [] \<Longrightarrow> applyMode E opts s = Done (applyDrawAvailability opts s)"
  by (simp add: applyMode_def renderZonesOnMain_def renderGrid_def)

lemma focusZone_keeps [simp]:
  "zones (state_of (focusZone E zo s)) = zones s"
  "mode (state_of (focusZone E zo s)) = mode s"
  "hint (state_of (focusZone E zo s)) = hint s"
  "warn (state_of (focusZone E zo s)) = warn s"
  "drawHidden (state_of (focusZone E zo s)) = drawHidden s"
  by (cases zo; simp split: option.splits)+

lemma then_focus_zones [simp]:
  "zones (state_of (case applyMode E opts s of
                      Threw e s' \<Rightarrow> Threw e s'
                    | Done s2 \<Rightarrow> focusZone E (zo s2) s2)) = zones s"
  using applyMode_cases [of E opts s] by auto

lemma infer_center_keeps [simp]:
  "zone_id (infer_center E z) = zone_id z"
  "createdAt (infer_center E z) = createdAt z"
  "geojson (infer_center E z) = geojson z"
  "zoom (infer_center E z) = zoom z"
  by (simp_all add: infer_center_def Let_def split: option.splits layer.splits)

lemma infer_center_center:
  "center (infer_center E z) =
     (if truthy (center z) then center z
      else case safeBoundsFromGeo E (geojson z) of
             Some b \<Rightarrow> JArr [JNum (center_lat b), JNum (center_lng b)]
           | None \<Rightarrow> fallback_center)"
  by (simp add: infer_center_def safeBoundsFromGeo_def Let_def split: option.splits layer.splits)

lemma isArray_truthy: "isArray v \<Longrightarrow> truthy v"
  by (cases v) simp_all

lemma safeBoundsFromGeo_Some:
  "safeBoundsFromGeo E g = Some b \<longleftrightarrow> geoJSON E g = Some (Layer (Some b)) \<and> isValid b"
  by (auto simp: safeBoundsFromGeo_def split: option.splits layer.splits)

section \<open>Arrays\<close>

lemma findIndex_neg: "findIndex P xs < 0 \<longleftrightarrow> (\<forall>x\<in>set xs. \<not> P x)"
  by (induction xs) (auto simp: Let_def)

lemma findIndex_split:
  "0 \<le> findIndex P xs \<Longrightarrow>
     \<exists>us z vs. xs = us @ z # vs \<and> P z \<and> (\<forall>u\<in>set us. \<not> P u) \<and> findIndex P xs = int (length us)"
proof (induction xs)
  case Nil
  then show ?case by simp
next
  case (Cons x xs)
  show ?case
  proof (cases "P x")
    case True
    then have "x # xs = [] @ x # xs \<and> P x \<and> (\<forall>u\<in>set []. \<not> P u) \<and> findIndex P (x # xs) = int (length ([]::'a list))"
      by simp
    then show ?thesis by blast
  next
    case False
    with Cons.prems have nn: "0 \<le> findIndex P xs"
      by (auto simp: Let_def split: if_splits)
    from Cons.IH [OF nn] obtain us z vs where
      h: "xs = us @ z # vs" "P z" "\<forall>u\<in>set us. \<not> P u" "findIndex P xs = int (length us)"
      by blast
    from h False nn have "x # xs = (x # us) @ z # vs \<and> P z \<and> (\<forall>u\<in>set (x # us). \<not> P u)
        \<and> findIndex P (x # xs) = int (length (x # us))"
      by (simp add: Let_def)
    then show ?thesis by blast
  qed
qed

lemma splice1_middle: "splice1 (us @ z # vs) (int (length us)) = us @ vs"
  by (simp add: splice1_def)

lemma length_slice0: "0 \<le> l \<Longrightarrow> int (length (slice0 xs l)) \<le> l"
  by (simp add: slice0_def)

lemma slice0_nonneg: "0 \<le> l \<Longrightarrow> slice0 xs l = take (nat l) xs"
  by (simp add: slice0_def)


lemma find_absent: "x \<notin> f ` set xs \<Longrightarrow> List.find (\<lambda>z. f z = x) xs = None"
  by (induction xs) auto

section \<open>The two passes of normalizeImport\<close>

lemma import_entry_Inl: "import_entry E t v = Inl e \<Longrightarrow> e = MissingGeometry"
  by (simp add: import_entry_def split: if_splits)

lemma import_entry_geojson:
  "import_entry E t v = Inr z \<Longrightarrow> geojson z = getprop v ''geojson''"
  by (auto simp: import_entry_def split: if_splits)

lemma import_entry_zoom: "import_entry E t v = Inr z \<Longrightarrow> num_truthy (zoom z)"
  by (auto simp: import_entry_def num_or_else_def num_truthy_def split: if_splits)

lemma import_entry_stable: "stable_zone z \<Longrightarrow> import_entry E t (zone_value z) = Inr z"
  by (simp add: import_entry_def zone_value_def stable_zone_def or_else_def num_or_else_def)

lemma infer_center_stable: "stable_zone z \<Longrightarrow> infer_center E z = z"
  by (simp add: infer_center_def stable_zone_def isArray_truthy)

lemma length_import_entries:
  "import_entries E ts k xs = Inr zs \<Longrightarrow> length zs = length xs"
  by (induction xs arbitrary: k zs) (auto split: sum.splits)

lemma import_entries_missing:
  "\<exists>v\<in>set xs. \<not> truthy (getprop v ''geojson'') \<Longrightarrow>
     import_entries E ts k xs = Inl MissingGeometry"
proof (induction xs arbitrary: k)
  case Nil
  then show ?case by simp
next
  case (Cons x xs)
  show ?case
  proof (cases "truthy (getprop x ''geojson'')")
    case True
    with Cons.prems have "\<exists>v\<in>set xs. \<not> truthy (getprop v ''geojson'')"
      by auto
    from Cons.IH [OF this] show ?thesis
      by (auto split: sum.splits dest: import_entry_Inl)
  next
    case False
    then show ?thesis
      by (simp add: import_entry_def)
  qed
qed

lemma import_entries_nth:
  "import_entries E ts k xs = Inr zs \<Longrightarrow> i < length xs \<Longrightarrow>
     import_entry E (ts (k + i)) (xs ! i) = Inr (zs ! i)"
proof (induction xs arbitrary: k zs i)
  case Nil
  then show ?case by simp
next
  case (Cons x xs)
  from Cons.prems(1) obtain r rs where
    h: "import_entry E (ts k) x = Inr r" "import_entries E ts (Suc k) xs = Inr rs" "zs = r # rs"
    by (auto split: sum.splits)
  show ?case
  proof (cases i)
    case 0
    with h show ?thesis by simp
  next
    case (Suc j)
    with Cons.prems(2) have "j < length xs" by simp
    from Cons.IH [OF h(2) this] Suc h(3) show ?thesis by simp
  qed
qed

lemma import_entries_valid:
  "\<forall>v\<in>set xs. truthy (getprop v ''geojson'') \<Longrightarrow> \<exists>zs. import_entries E ts k xs = Inr zs"
proof (induction xs arbitrary: k)
  case Nil
  then show ?case by simp
next
  case (Cons x xs)
  then have "\<forall>v\<in>set xs. truthy (getprop v ''geojson'')" by simp
  from Cons.IH [OF this] obtain rs where "import_entries E ts (Suc k) xs = Inr rs"
    by blast
  moreover from Cons.prems have "\<exists>r. import_entry E (ts k) x = Inr r"
    by (simp add: import_entry_def)
  ultimately show ?case by auto
qed


lemma import_entries_zoom:
  "import_entries E ts k xs = Inr zs \<Longrightarrow> \<forall>z\<in>set zs. num_truthy (zoom z)"
  by (induction xs arbitrary: k zs) (auto split: sum.splits dest: import_entry_zoom)

lemma normalizeImport_array:
  "raw_zones payload = JArr xs \<Longrightarrow>
     normalizeImport E ts payload l =
       (case import_entries E ts 0 (slice0 xs l) of
          Inl e \<Rightarrow> Inl e
        | Inr zs \<Rightarrow> Inr (map (infer_center E) zs))"
  by (simp add: normalizeImport_def)

lemma length_normalizeImport:
  assumes "normalizeImport E ts p l = Inr zs" and "0 \<le> l"
  shows "int (length zs) \<le> l"
proof -
  from assms(1) obtain xs ys where
    "import_entries E ts 0 (slice0 xs l) = Inr ys" and "zs = map (infer_center E) ys"
    by (auto simp: normalizeImport_def split: jsval.splits sum.splits)
  then have "length zs = length (slice0 xs l)"
    by (simp add: length_import_entries)
  with length_slice0 [OF assms(2)] show ?thesis by simp
qed

lemma normalizeImport_zoom:
  assumes "normalizeImport E ts p l = Inr zs"
  shows "\<forall>z\<in>set zs. num_truthy (zoom z)"
proof -
  from assms obtain xs ys where
    "import_entries E ts 0 (slice0 xs l) = Inr ys" and "zs = map (infer_center E) ys"
    by (auto simp: normalizeImport_def split: jsval.splits sum.splits)
  then show ?thesis
    by (auto dest: import_entries_zoom)
qed

section \<open>Generated ids\<close>

text \<open>
  The hexadecimal form of the clock's reading determines the reading, so two generated ids
  are the same string only if the random digits and the clock's readings were the same
  (\<open>Math.random().toString(16).slice(2)\<close> consists of hexadecimal digits, no \<open>_\<close>).
\<close>

lemma hexdigit_inj: "a < 16 \<Longrightarrow> b < 16 \<Longrightarrow> hexdigit a = hexdigit b \<Longrightarrow> a = b"
proof -
  assume a: "a < 16" and b: "b < 16" and e: "hexdigit a = hexdigit b"
  have d: "distinct ''0123456789abcdef''" by simp
  have l: "length ''0123456789abcdef'' = 16" by simp
  from e have "''0123456789abcdef'' ! a = ''0123456789abcdef'' ! b"
    by (simp add: hexdigit_def)
  with d a b l show ?thesis
    by (metis nth_eq_iff_index_eq)
qed

lemma toString16_small: "n < 16 \<Longrightarrow> toString16 n = [hexdigit n]"
  by (subst toString16.simps) simp

lemma toString16_big:
  "16 \<le> n \<Longrightarrow> toString16 n = toString16 (n div 16) @ [hexdigit (n mod 16)]"
  by (subst toString16.simps) simp

lemma toString16_nonempty: "toString16 n \<noteq> []"
proof (cases "n < 16")
  case True
  then show ?thesis by (simp only: toString16_small) simp
next
  case False
  then have "16 \<le> n" by simp
  then show ?thesis by (simp only: toString16_big) simp
qed

lemma toString16_long:
  assumes "16 \<le> n"
  shows "2 \<le> length (toString16 n)"
proof -
  have "0 < length (toString16 (n div 16))"
    using toString16_nonempty [of "n div 16"] by simp
  moreover have "length (toString16 n) = length (toString16 (n div 16)) + 1"
    by (simp only: toString16_big [OF assms]) simp
  ultimately show ?thesis by linarith
qed

lemma toString16_inj: "toString16 a = toString16 b \<Longrightarrow> a = b"
proof (induction a arbitrary: b rule: toString16.induct)
  case (1 a)
  show ?case
  proof (cases "a < 16")
    case True
    with "1.prems" have "toString16 b = [hexdigit a]"
      by (simp add: toString16_small)
    then have "length (toString16 b) = 1"
      by simp
    with toString16_long [of b] have b: "b < 16"
      by (cases "b < 16") simp_all
    with True "1.prems" show ?thesis
      by (simp add: toString16_small hexdigit_inj)
  next
    case False
    then have a: "16 \<le> a" by simp
    from toString16_long [OF a] "1.prems" have "2 \<le> length (toString16 b)" by simp
    then have b: "16 \<le> b"
      using toString16_small [of b] by (cases "b < 16") simp_all
    from "1.prems" have "toString16 (a div 16) = toString16 (b div 16)"
      and h: "hexdigit (a mod 16) = hexdigit (b mod 16)"
      by (simp_all add: toString16_big [OF a] toString16_big [OF b])
    with "1.IH" [OF False] have "a div 16 = b div 16" by simp
    moreover from h have "a mod 16 = b mod 16"
      by (intro hexdigit_inj) simp_all
    ultimately show ?thesis
      by (metis div_mult_mod_eq)
  qed
qed

lemma split_at_first:
  "c \<notin> set r \<Longrightarrow> c \<notin> set r' \<Longrightarrow> r @ c # h = r' @ c # h' \<Longrightarrow> r = r' \<and> h = h'"
proof (induction r arbitrary: r')
  case Nil
  then show ?case by (cases r') auto
next
  case (Cons x r)
  then show ?case by (cases r') auto
qed

lemma makeId_inject:
  assumes "CHR ''_'' \<notin> set (rnd t)" and "CHR ''_'' \<notin> set (rnd t')"
    and "makeId t = makeId t'"
  shows "rnd t = rnd t' \<and> idNow t = idNow t'"
proof -
  from assms(3) have "rnd t @ CHR ''_'' # toString16 (idNow t)
      = rnd t' @ CHR ''_'' # toString16 (idNow t')"
    by (simp add: makeId_def)
  from split_at_first [OF assms(1,2) this] show ?thesis
    by (simp add: toString16_inj)
qed

section \<open>The handlers\<close>

lemma on_created_refused:
  "mode s = JStr ''edit'' \<Longrightarrow> limit opts \<le> int (length (zones s)) \<Longrightarrow>
     on_created E opts d s = Done (applyDrawAvailability opts s)"
  by (simp add: on_created_def)

lemma on_created_zones:
  "mode s = JStr ''edit'' \<Longrightarrow> int (length (zones s)) < limit opts \<Longrightarrow>
     zones (state_of (on_created E opts d s)) = zones s @
       [\<lparr> zone_id = makeId (draw_tick d),
          createdAt = Fin (of_nat (now (draw_tick d))),
          geojson = layer_geo d,
          center = (case safeBoundsFromGeo E (layer_geo d) of
                      Some b \<Rightarrow> JArr [JNum (center_lat b), JNum (center_lng b)]
                    | None \<Rightarrow> JArr [JNum (map_center_lat d), JNum (map_center_lng d)]),
          zoom = Math_min (map_zoom d) (Fin 17) \<rparr>]"
  by (simp add: on_created_def Let_def)

lemma zones_on_import:
  "zones (on_import E opts f ts s) =
     (if mode s \<noteq> JStr ''edit'' then zones s
      else case f of
             Parsed json \<Rightarrow> (case normalizeImport E ts json (limit opts) of
                               Inl e \<Rightarrow> zones s
                             | Inr zs \<Rightarrow> zs)
           | _ \<Rightarrow> zones s)"
proof -
  have "zones (case applyMode E opts (s\<lparr>zones := zs\<rparr>) of
                  Threw e s' \<Rightarrow> s'\<lparr>hint := ImportErrorHint e, warn := True\<rparr>
                | Done s2 \<Rightarrow>
                    (case focusZone E (elem_at (zones s2) 0) s2 of
                       Threw e s' \<Rightarrow> s'\<lparr>hint := ImportErrorHint e, warn := True\<rparr>
                     | Done s3 \<Rightarrow>
                         s3\<lparr>hint := ImportDoneHint (length (zones s3)), warn := False\<rparr>)) = zs"
    for zs
  proof -
    have f: "zones (case focusZone E zo s2 of
                       Threw e s' \<Rightarrow> s'\<lparr>hint := ImportErrorHint e, warn := True\<rparr>
                     | Done s3 \<Rightarrow>
                         s3\<lparr>hint := ImportDoneHint (length (zones s3)), warn := False\<rparr>) = zones s2"
      for zo s2
      using focusZone_keeps(1) [of E zo s2]
      by (cases "focusZone E zo s2") simp_all
    from applyMode_cases [of E opts "s\<lparr>zones := zs\<rparr>"] show ?thesis
      by (auto simp: f)
  qed
  then show ?thesis
    by (simp add: on_import_def split: picked.splits sum.splits)
qed

lemma zones_setZones:
  "zones (state_of (setZones E opts p ts s)) =
     (case normalizeImport E ts p (limit opts) of Inl e \<Rightarrow> zones s | Inr zs \<Rightarrow> zs)"
  by (simp add: setZones_def split: sum.splits)

lemma zones_mount [simp]: "zones (mount E opts) = []"
  by (simp add: mount_def)

lemma Math_min_17_le: "\<not> num_less (Fin 17) (Math_min a (Fin 17))"
  by (cases a) (simp_all add: Math_min_def)

lemma Math_min_Fin: "Math_min (Fin x) (Fin y) = Fin (min x y)"
  by (simp add: Math_min_def min_def)

lemma step_keeps_limit:
  assumes "int (length (zones s)) \<le> limit opts"
  shows "int (length (zones (step E opts e s))) \<le> limit opts"
proof -
  from assms have l0: "0 \<le> limit opts" by linarith
  show ?thesis
  proof (cases e)
    case (Created d)
    show ?thesis
    proof (cases "mode s = JStr ''edit'' \<and> int (length (zones s)) < limit opts")
      case True
      with Created show ?thesis
        by (simp add: on_created_zones)
    next
      case False
      with Created assms show ?thesis
        by (auto simp: on_created_def)
    qed
  next
    case (GridClick c)
    show ?thesis
    proof (cases c)
      case (OnDel i)
      with GridClick assms show ?thesis
        by (auto simp: Let_def splice1_def)
    next
      case (OnCard i)
      with GridClick assms show ?thesis by (simp add: focusZoneById_def)
    next
      case Elsewhere
      with GridClick assms show ?thesis by simp
    qed
  next
    case ExportClick
    with assms show ?thesis by simp
  next
    case (ImportChange f ts)
    with assms l0 show ?thesis
      by (auto simp: zones_on_import split: picked.splits sum.splits
               dest: length_normalizeImport)
  next
    case ClearAll
    with assms l0 show ?thesis by (simp add: on_clear_def)
  next
    case ToggleMode
    with assms show ?thesis by (simp add: on_toggle_def)
  next
    case (SetMode m)
    with assms show ?thesis by (simp add: setMode_def)
  next
    case (SetZones p ts)
    with assms l0 show ?thesis
      by (auto simp: zones_setZones split: sum.splits dest: length_normalizeImport)
  next
    case (Focus i)
    with assms show ?thesis by (simp add: focus_def focusZoneById_def)
  qed
qed

section \<open>The sample data, evaluated\<close>

lemma sample_opts_fields:
  "limit sample_opts = 2" "opt_center sample_opts = fallback_center"
  "opt_zoom sample_opts = Fin 12" "opt_mode sample_opts = JStr ''edit''"
  by (simp_all add: sample_opts_def)

lemma view_opts_fields:
  "limit view_opts = 2" "opt_center view_opts = fallback_center"
  "opt_zoom view_opts = Fin 12" "opt_mode view_opts = JStr ''view''"
  by (simp_all add: view_opts_def sample_opts_def)

lemma sample_ticks_fields:
  "rnd (sample_ticks i) = ''a3f''" "idNow (sample_ticks i) = 26 + i" "now (sample_ticks i) = 26 + i"
  by (simp_all add: sample_ticks_def)

lemma sample_bounds_fields:
  "isValid sample_bounds" "center_lat sample_bounds = Fin 43" "center_lng sample_bounds = Fin 77"
  "\<not> isValid no_bounds"
  by (simp_all add: sample_bounds_def no_bounds_def)

lemma sample_draw_fields:
  "layer_geo sample_draw = sample_geo" "map_center_lat sample_draw = Fin 43"
  "map_center_lng sample_draw = Fin 76" "map_zoom sample_draw = Fin 12"
  "draw_tick sample_draw = sample_ticks 0"
  by (simp_all add: sample_draw_def)

lemma sample_zone_fields:
  "zone_id sample_zone = JStr ''z_a3f_1a''" "createdAt sample_zone = Fin 26"
  "geojson sample_zone = sample_geo" "center sample_zone = JArr [JNum (Fin 43), JNum (Fin 77)]"
  "zoom sample_zone = Fin 12"
  by (simp_all add: sample_zone_def)

lemma other_zone_fields:
  "zone_id other_zone = JStr ''z_b07_2c''" "createdAt other_zone = Fin 44"
  "geojson other_zone = empty_geo" "center other_zone = JArr [JNum (Fin 43), JNum (Fin 76)]"
  "zoom other_zone = Fin 13"
  by (simp_all add: other_zone_def)

lemma sample_geos:
  "sample_geo \<noteq> empty_geo" "truthy sample_geo" "truthy empty_geo"
  "json_value sample_geo" "json_value empty_geo"
  by (simp_all add: sample_geo_def empty_geo_def json_value_def)

lemma toString16_26: "toString16 26 = ''1a''" "toString16 27 = ''1b''"
  by (simp_all add: toString16.simps hexdigit_def)

lemma makeId_sample:
  "makeId (sample_ticks 0) = JStr ''z_a3f_1a''" "makeId (sample_ticks 1) = JStr ''z_a3f_1b''"
  by (simp_all add: makeId_def sample_ticks_def toString16_26)

lemma sample_env_fields:
  "geoJSON sample_env sample_geo = Some (Layer (Some sample_bounds))"
  "geoJSON sample_env empty_geo = Some (Layer (Some no_bounds))"
  "geoJSON sample_env (JObj []) = None"
  "setView_ok sample_env c z = (lat_lng_pair c \<and> finite_num z)"
  "container_ok sample_env seen i = (i \<notin> set seen)"
  using sample_geos(1)
  by (simp_all add: sample_env_def) (simp_all add: sample_geo_def empty_geo_def)

lemma safeBounds_sample:
  "safeBoundsFromGeo sample_env sample_geo = Some sample_bounds"
  "safeBoundsFromGeo sample_env empty_geo = None"
  by (simp_all add: safeBoundsFromGeo_def sample_env_fields sample_bounds_fields)

lemma stable_samples: "stable_zone sample_zone" "stable_zone other_zone"
  by (simp_all add: stable_zone_def sample_zone_fields other_zone_fields sample_geos num_truthy_def)


lemma mount_sample: "mount sample_env sample_opts =
  \<lparr> mode = JStr ''edit'', zones = [], hint = DrawHint, warn = False, drawHidden = False,
    view = SetView fallback_center (Fin 12) \<rparr>"
  by (simp add: mount_def sample_opts_fields applyMode_empty applyDrawAvailability_def Let_def)

lemma mount_view: "mount sample_env view_opts =
  \<lparr> mode = JStr ''view'', zones = [], hint = ViewModeHint, warn = False, drawHidden = True,
    view = SetView fallback_center (Fin 12) \<rparr>"
  by (simp add: mount_def view_opts_fields applyMode_empty applyDrawAvailability_def Let_def)

lemma render_one_sample:
  "zone_id z = JStr i \<Longrightarrow> geojson z = sample_geo \<Longrightarrow> center z = JArr [JNum (Fin 43), JNum (Fin 77)]
   \<Longrightarrow> finite_num (zoom z)
   \<Longrightarrow> renderZonesOnMain sample_env [z] \<and> renderGrid sample_env [z]"
  by (simp add: renderZonesOnMain_def renderGrid_def sample_env_fields)

lemma render_two_samples:
  "renderZonesOnMain sample_env [sample_zone, other_zone]"
  "renderGrid sample_env [sample_zone, other_zone]"
  by (simp_all add: renderZonesOnMain_def renderGrid_def sample_env_fields sample_zone_fields
      other_zone_fields)

lemma drawn_state_eq: "drawn_state =
  \<lparr> mode = JStr ''edit'', zones = [sample_zone], hint = DrawHint, warn = False,
    drawHidden = False, view = FitBounds sample_bounds 30 30 \<rparr>"
proof -
  let ?s1 = "\<lparr> mode = JStr ''edit'', zones = [sample_zone], hint = DrawHint, warn = False,
    drawHidden = False, view = SetView fallback_center (Fin 12) \<rparr>"
  have a: "applyMode sample_env sample_opts ?s1 = Done ?s1"
    using render_one_sample [of sample_zone "''z_a3f_1a''"]
    by (simp add: applyMode_def sample_zone_fields applyDrawAvailability_def sample_opts_fields)
  show ?thesis
    by (simp add: drawn_state_def on_created_def mount_sample sample_opts_fields
        sample_draw_fields makeId_sample safeBounds_sample sample_ticks_fields Math_min_def
        sample_bounds_fields Let_def)
       (simp add: a [unfolded sample_zone_def] elem_at_def safeBounds_sample sample_zone_def)
qed

lemma import_two_samples:
  "normalizeImport sample_env sample_ticks
     (JArr [zone_value sample_zone, zone_value other_zone]) 2 = Inr [sample_zone, other_zone]"
  by (simp add: normalizeImport_def raw_zones_def slice0_def import_entry_stable
      infer_center_stable stable_samples)

lemma two_zone_state_eq: "two_zone_state =
  \<lparr> mode = JStr ''edit'', zones = [sample_zone, other_zone], hint = LimitReachedHint,
    warn = True, drawHidden = True, view = SetView fallback_center (Fin 12) \<rparr>"
  by (simp add: two_zone_state_def setZones_def sample_opts_fields import_two_samples
      applyMode_def render_two_samples mount_sample applyDrawAvailability_def)

lemma imported_state_eq: "imported_state =
  \<lparr> mode = JStr ''edit'', zones = [sample_zone, other_zone], hint = ImportDoneHint 2,
    warn = False, drawHidden = True, view = FitBounds sample_bounds 30 30 \<rparr>"
  by (simp add: imported_state_def on_import_def sample_opts_fields import_two_samples
      applyMode_def render_two_samples mount_sample applyDrawAvailability_def elem_at_def
      sample_zone_fields safeBounds_sample)

section \<open>The mode gate\<close>

text \<open>
  Claim C1, as amended. In view mode (in any mode other than \<open>edit\<close>) the handlers of a
  finished drawing, of a delete click, of a file import and of clear-all return with the
  state they were given, so the zone set is unchanged. \<open>setZones\<close> of the host interface
  does not look at the mode: whatever \<open>normalizeImport\<close> accepts becomes the zone set,
  and the call returns if the redraw goes through.
\<close>

theorem view_mode_gates_handlers:
  assumes "mode s \<noteq> JStr ''edit''"
  shows "on_created E opts d s = Done s
       \<and> on_grid_click E opts (OnDel i) s = Done s
       \<and> on_import E opts f ts s = s
       \<and> on_clear E opts s = Done s
       \<and> (\<forall>zs. normalizeImport E ts p (limit opts) = Inr zs \<longrightarrow>
            zones (state_of (setZones E opts p ts s)) = zs \<and>
            (renderZonesOnMain E zs \<and> renderGrid E zs \<longrightarrow>
               setZones E opts p ts s = Done (applyDrawAvailability opts (s\<lparr>zones := zs\<rparr>))))"
  using assms
  by (simp add: on_created_def on_import_def on_clear_def setZones_def applyMode_def)

theorem view_mode_gates_handlers_witness:
  "mode (mount sample_env view_opts) \<noteq> JStr ''edit''
   \<and> on_created sample_env view_opts sample_draw (mount sample_env view_opts)
       = Done (mount sample_env view_opts)
   \<and> on_grid_click sample_env view_opts (OnDel ''z_a3f_1a'') (mount sample_env view_opts)
       = Done (mount sample_env view_opts)
   \<and> on_import sample_env view_opts (Parsed (JArr [zone_value sample_zone, zone_value other_zone]))
        sample_ticks (mount sample_env view_opts) = mount sample_env view_opts
   \<and> on_clear sample_env view_opts (mount sample_env view_opts) = Done (mount sample_env view_opts)
   \<and> normalizeImport sample_env sample_ticks (JArr [zone_value sample_zone, zone_value other_zone])
        (limit view_opts) = Inr [sample_zone, other_zone]
   \<and> renderZonesOnMain sample_env [sample_zone, other_zone]
   \<and> renderGrid sample_env [sample_zone, other_zone]
   \<and> setZones sample_env view_opts (JArr [zone_value sample_zone, zone_value other_zone])
        sample_ticks (mount sample_env view_opts)
       = Done ((mount sample_env view_opts)\<lparr>zones := [sample_zone, other_zone]\<rparr>)"
proof -
  have m: "mode (mount sample_env view_opts) \<noteq> JStr ''edit''"
    by (simp add: mount_view)
  have n: "normalizeImport sample_env sample_ticks
        (JArr [zone_value sample_zone, zone_value other_zone]) (limit view_opts)
        = Inr [sample_zone, other_zone]"
    by (simp add: view_opts_fields import_two_samples)
  have a: "applyDrawAvailability view_opts
        ((mount sample_env view_opts)\<lparr>zones := [sample_zone, other_zone]\<rparr>)
      = (mount sample_env view_opts)\<lparr>zones := [sample_zone, other_zone]\<rparr>"
    by (simp add: mount_view applyDrawAvailability_def)
  from view_mode_gates_handlers [OF m, where E = sample_env and opts = view_opts
         and d = sample_draw and i = "''z_a3f_1a''"
         and f = "Parsed (JArr [zone_value sample_zone, zone_value other_zone])"
         and ts = sample_ticks
         and p = "JArr [zone_value sample_zone, zone_value other_zone]"]
  show ?thesis
    by (simp add: m n a render_two_samples)
qed

text \<open>
  Claim C1 as stated fails for \<open>setZones\<close>: on a widget mounted in view mode with an empty
  set, \<open>setZones\<close> with two zones installs them.
\<close>

theorem setZones_in_view_mode_counterexample:
  "mode (mount sample_env view_opts) = JStr ''view''
   \<and> zones (mount sample_env view_opts) = []
   \<and> zones (step sample_env view_opts
        (SetZones (JArr [zone_value sample_zone, zone_value other_zone]) sample_ticks)
        (mount sample_env view_opts))
       = [sample_zone, other_zone]"
  by (simp add: mount_view zones_setZones view_opts_fields import_two_samples)

section \<open>Importing\<close>

text \<open>
  Claim C2, as amended. \<open>normalizeImport\<close> cuts the array to its first \<open>limit\<close> entries
  before it looks at any of them. If one of those retained entries has no (truthy)
  \<open>geojson\<close>, the whole input is rejected with the missing-geometry error: \<open>setZones\<close>
  throws it to the host with the state untouched, the file import reports it, and either
  way the zone set stays as it was. Entries beyond the first \<open>limit\<close> are dropped
  unexamined.
\<close>

theorem missing_geometry_rejects:
  assumes "raw_zones payload = JArr xs"
    and "\<exists>v\<in>set (slice0 xs (limit opts)). \<not> truthy (getprop v ''geojson'')"
  shows "normalizeImport E ts payload (limit opts) = Inl MissingGeometry
       \<and> setZones E opts payload ts s = Threw MissingGeometry s
       \<and> zones (step E opts (SetZones payload ts) s) = zones s
       \<and> zones (on_import E opts (Parsed payload) ts s) = zones s"
proof -
  from import_entries_missing [OF assms(2)]
  have n: "normalizeImport E ts payload (limit opts) = Inl MissingGeometry"
    by (simp add: normalizeImport_array [OF assms(1)])
  then show ?thesis
    by (simp add: setZones_def on_import_def)
qed

lemma import_one_of_two:
  "normalizeImport sample_env sample_ticks
     (JArr [JObj [(''geojson'', sample_geo)], JObj [(''id'', JStr ''z_2'')]]) 1
   = Inr [sample_zone\<lparr>zoom := Fin 14\<rparr>]"
  by (simp add: normalizeImport_def raw_zones_def slice0_def import_entry_def infer_center_def
      sample_geos makeId_sample or_else_def num_or_else_def num_truthy_def
      sample_zone_def sample_env_fields sample_bounds_fields sample_ticks_fields)

theorem missing_geometry_rejects_witness:
  "raw_zones (JArr [JObj [(''geojson'', sample_geo)], JObj [(''id'', JStr ''z_2'')]])
     = JArr [JObj [(''geojson'', sample_geo)], JObj [(''id'', JStr ''z_2'')]]
   \<and> \<not> truthy (getprop (JObj [(''id'', JStr ''z_2'')]) ''geojson'')
   \<and> JObj [(''id'', JStr ''z_2'')] \<in> set (slice0
        [JObj [(''geojson'', sample_geo)], JObj [(''id'', JStr ''z_2'')]] (limit sample_opts))
   \<and> setZones sample_env sample_opts
        (JArr [JObj [(''geojson'', sample_geo)], JObj [(''id'', JStr ''z_2'')]])
        sample_ticks drawn_state = Threw MissingGeometry drawn_state
   \<and> zones (on_import sample_env sample_opts
        (Parsed (JArr [JObj [(''geojson'', sample_geo)], JObj [(''id'', JStr ''z_2'')]]))
        sample_ticks drawn_state) = [sample_zone]"
proof -
  have r: "raw_zones (JArr [JObj [(''geojson'', sample_geo)], JObj [(''id'', JStr ''z_2'')]])
     = JArr [JObj [(''geojson'', sample_geo)], JObj [(''id'', JStr ''z_2'')]]"
    by (simp add: raw_zones_def)
  have t: "\<not> truthy (getprop (JObj [(''id'', JStr ''z_2'')]) ''geojson'')"
    by simp
  have m: "JObj [(''id'', JStr ''z_2'')] \<in> set (slice0
        [JObj [(''geojson'', sample_geo)], JObj [(''id'', JStr ''z_2'')]] (limit sample_opts))"
    by (simp add: slice0_def sample_opts_fields)
  from t m have e: "\<exists>v\<in>set (slice0
        [JObj [(''geojson'', sample_geo)], JObj [(''id'', JStr ''z_2'')]] (limit sample_opts)).
        \<not> truthy (getprop v ''geojson'')"
    by blast
  have z: "zones drawn_state = [sample_zone]"
    by (simp add: drawn_state_eq)
  from missing_geometry_rejects [OF r e, of sample_env sample_ticks drawn_state] r t m z
  show ?thesis by simp
qed

text \<open>
  Claim C2 as stated fails when the entry without geometry lies beyond the limit: with
  limit 1 the second entry, which has an id and no \<open>geojson\<close>, is dropped and the first
  is imported.
\<close>

theorem missing_geometry_beyond_limit_counterexample:
  "\<not> truthy (getprop (JObj [(''id'', JStr ''z_2'')]) ''geojson'')
   \<and> normalizeImport sample_env sample_ticks
        (JArr [JObj [(''geojson'', sample_geo)], JObj [(''id'', JStr ''z_2'')]]) 1
       = Inr [sample_zone\<lparr>zoom := Fin 14\<rparr>]"
  by (simp add: import_one_of_two)

section \<open>The capacity limit\<close>

text \<open>
  Claim C4. The zone set never holds more than \<open>limit\<close> zones: the widget mounts with an
  empty set, and every event (a finished drawing, a delete click, clear-all, a file
  import, \<open>setZones\<close>, and the ones that do not touch the set) keeps the size within the
  limit, a drawing beyond it being refused and an import being cut to it.
\<close>

theorem limit_invariant:
  assumes "reachable E opts s" and "0 \<le> limit opts"
  shows "int (length (zones s)) \<le> limit opts"
  using assms
proof (induction rule: reachable.induct)
  case mounted
  then show ?case by simp
next
  case (stepped s e)
  then show ?case by (simp add: step_keeps_limit)
qed

theorem limit_invariant_witness:
  "reachable sample_env sample_opts
     (step sample_env sample_opts (Created sample_draw) (mount sample_env sample_opts))
   \<and> 0 \<le> limit sample_opts
   \<and> zones (step sample_env sample_opts (Created sample_draw) (mount sample_env sample_opts))
       = [sample_zone]
   \<and> int (length (zones (step sample_env sample_opts (Created sample_draw)
        (mount sample_env sample_opts)))) \<le> limit sample_opts"
proof -
  have r: "reachable sample_env sample_opts
     (step sample_env sample_opts (Created sample_draw) (mount sample_env sample_opts))"
    by (rule reachable.stepped [OF reachable.mounted])
  have l: "0 \<le> limit sample_opts"
    by (simp add: sample_opts_fields)
  have z: "zones (step sample_env sample_opts (Created sample_draw) (mount sample_env sample_opts))
       = [sample_zone]"
    using drawn_state_eq by (simp add: drawn_state_def)
  from limit_invariant [OF r l] r l z show ?thesis by simp
qed

section \<open>Deleting a zone\<close>

text \<open>
  Claim C8. A click on the delete button of an id that no zone of the set carries leaves
  the set unchanged. In edit mode, a click on the delete button of an id in the set
  removes exactly one entry, the first one with that id, and keeps all the others in their
  order.
\<close>

theorem delete_by_id:
  "(JStr i \<notin> zone_id ` set (zones s) \<longrightarrow>
      zones (state_of (on_grid_click E opts (OnDel i) s)) = zones s)
   \<and> (mode s = JStr ''edit'' \<longrightarrow> JStr i \<in> zone_id ` set (zones s) \<longrightarrow>
      (\<exists>us z vs. zones s = us @ z # vs \<and> zone_id z = JStr i \<and>
                 JStr i \<notin> zone_id ` set us \<and>
                 zones (state_of (on_grid_click E opts (OnDel i) s)) = us @ vs))"
proof (intro conjI impI)
  assume "JStr i \<notin> zone_id ` set (zones s)"
  then have "\<forall>z\<in>set (zones s). zone_id z \<noteq> JStr i"
    by force
  then have "findIndex (\<lambda>z. zone_id z = JStr i) (zones s) < 0"
    by (simp add: findIndex_neg)
  then show "zones (state_of (on_grid_click E opts (OnDel i) s)) = zones s"
    by (simp add: Let_def)
next
  assume e: "mode s = JStr ''edit''" and "JStr i \<in> zone_id ` set (zones s)"
  then have "\<exists>z\<in>set (zones s). zone_id z = JStr i"
    by force
  then have "\<not> findIndex (\<lambda>z. zone_id z = JStr i) (zones s) < 0"
    by (simp add: findIndex_neg)
  then have nn: "0 \<le> findIndex (\<lambda>z. zone_id z = JStr i) (zones s)"
    by simp
  from findIndex_split [OF nn] obtain us z vs where
    h: "zones s = us @ z # vs" "zone_id z = JStr i" "\<forall>u\<in>set us. zone_id u \<noteq> JStr i"
       "findIndex (\<lambda>z. zone_id z = JStr i) (zones s) = int (length us)"
    by blast
  from e nn h have "zones (state_of (on_grid_click E opts (OnDel i) s)) = us @ vs"
    by (simp add: Let_def splice1_middle)
  with h show "\<exists>us z vs. zones s = us @ z # vs \<and> zone_id z = JStr i \<and>
                 JStr i \<notin> zone_id ` set us \<and>
                 zones (state_of (on_grid_click E opts (OnDel i) s)) = us @ vs"
    by (intro exI [of _ us] exI [of _ z] exI [of _ vs]) auto
qed

theorem delete_by_id_witness:
  "JStr ''z_0_0'' \<notin> zone_id ` set (zones two_zone_state)
   \<and> zones (state_of (on_grid_click sample_env sample_opts (OnDel ''z_0_0'') two_zone_state))
       = [sample_zone, other_zone]
   \<and> mode two_zone_state = JStr ''edit''
   \<and> JStr ''z_a3f_1a'' \<in> zone_id ` set (zones two_zone_state)
   \<and> zones (state_of (on_grid_click sample_env sample_opts (OnDel ''z_a3f_1a'') two_zone_state))
       = [other_zone]"
proof -
  have z: "zones two_zone_state = [sample_zone, other_zone]"
    and m: "mode two_zone_state = JStr ''edit''"
    by (simp_all add: two_zone_state_eq)
  from delete_by_id [of "''z_0_0''" two_zone_state sample_env sample_opts]
       delete_by_id [of "''z_a3f_1a''" two_zone_state sample_env sample_opts]
  show ?thesis
    by (auto simp: z m sample_zone_fields other_zone_fields append_eq_Cons_conv Cons_eq_append_conv)
qed

section \<open>Drawing a zone\<close>

text \<open>
  Claim C6. A finished drawing while the set already holds \<open>limit\<close> zones (or more)
  leaves the set as it is, and in edit mode it puts the widget in its limit-reached
  condition: the limit hint with its warning class, the drawing toolbar hidden. In edit
  mode with fewer zones than the limit it appends exactly one zone, whose id is the string
  generated at that moment, \<open>z_\<close>, the hexadecimal digits of the random number, \<open>_\<close> and
  the clock's reading in hexadecimal; its \<open>createdAt\<close> is the clock's reading and its
  geometry the drawn one.
\<close>

theorem create_refused_or_appended:
  "(limit opts \<le> int (length (zones s)) \<longrightarrow>
      zones (state_of (on_created E opts d s)) = zones s)
   \<and> (mode s = JStr ''edit'' \<longrightarrow> limit opts \<le> int (length (zones s)) \<longrightarrow>
      on_created E opts d s
        = Done (s\<lparr>drawHidden := True, hint := LimitReachedHint, warn := True\<rparr>))
   \<and> (mode s = JStr ''edit'' \<longrightarrow> int (length (zones s)) < limit opts \<longrightarrow>
      (\<exists>z. zones (state_of (on_created E opts d s)) = zones s @ [z] \<and>
           zone_id z = JStr (''z_'' @ rnd (draw_tick d) @ ''_'' @ toString16 (idNow (draw_tick d))) \<and>
           createdAt z = Fin (of_nat (now (draw_tick d))) \<and>
           geojson z = layer_geo d))"
proof (intro conjI impI)
  assume "limit opts \<le> int (length (zones s))"
  then show "zones (state_of (on_created E opts d s)) = zones s"
    by (simp add: on_created_def)
next
  assume edit: "mode s = JStr ''edit''" and full: "limit opts \<le> int (length (zones s))"
  then show "on_created E opts d s
        = Done (s\<lparr>drawHidden := True, hint := LimitReachedHint, warn := True\<rparr>)"
    by (simp add: on_created_refused applyDrawAvailability_def)
next
  assume edit: "mode s = JStr ''edit''" and room: "int (length (zones s)) < limit opts"
  show "\<exists>z. zones (state_of (on_created E opts d s)) = zones s @ [z] \<and>
           zone_id z = JStr (''z_'' @ rnd (draw_tick d) @ ''_'' @ toString16 (idNow (draw_tick d))) \<and>
           createdAt z = Fin (of_nat (now (draw_tick d))) \<and>
           geojson z = layer_geo d"
    by (simp add: on_created_zones [OF edit room] makeId_def)
qed

lemma makeId_sample_Suc: "makeId (sample_ticks (Suc 0)) = JStr ''z_a3f_1b''"
  using makeId_sample(2) by simp

lemma drawn_twice:
  "zones (state_of (on_created sample_env sample_opts
     (sample_draw\<lparr>draw_tick := sample_ticks (Suc 0)\<rparr>) drawn_state))
   = [sample_zone, sample_zone\<lparr>zone_id := JStr ''z_a3f_1b'', createdAt := Fin 27\<rparr>]"
  by (simp add: on_created_zones drawn_state_eq sample_opts_fields sample_draw_fields
      makeId_sample_Suc safeBounds_sample sample_ticks_fields Math_min_def sample_bounds_fields
      sample_zone_def)

theorem create_refused_or_appended_witness:
  "mode imported_state = JStr ''edit''
   \<and> limit sample_opts \<le> int (length (zones imported_state))
   \<and> hint imported_state = ImportDoneHint 2
   \<and> on_created sample_env sample_opts sample_draw imported_state
       = Done (imported_state\<lparr>drawHidden := True, hint := LimitReachedHint, warn := True\<rparr>)
   \<and> mode drawn_state = JStr ''edit''
   \<and> int (length (zones drawn_state)) < limit sample_opts
   \<and> zones (state_of (on_created sample_env sample_opts
        (sample_draw\<lparr>draw_tick := sample_ticks (Suc 0)\<rparr>) drawn_state))
       = zones drawn_state @ [sample_zone\<lparr>zone_id := JStr ''z_a3f_1b'', createdAt := Fin 27\<rparr>]"
proof -
  have m: "mode imported_state = JStr ''edit''" "hint imported_state = ImportDoneHint 2"
    "length (zones imported_state) = 2"
    by (simp_all add: imported_state_eq)
  have d: "mode drawn_state = JStr ''edit''" "zones drawn_state = [sample_zone]"
    by (simp_all add: drawn_state_eq)
  from create_refused_or_appended [of sample_opts imported_state sample_env sample_draw]
       create_refused_or_appended [of sample_opts drawn_state sample_env
         "sample_draw\<lparr>draw_tick := sample_ticks (Suc 0)\<rparr>"]
  show ?thesis
    by (simp add: m d sample_opts_fields drawn_twice)
qed

text \<open>
  Claim C10. The zone a finished drawing appends stores \<open>Math.min(map.getZoom(), 17)\<close>
  as its zoom, which is never above 17; for a finite map zoom \<open>r\<close> it is the smaller of
  \<open>r\<close> and 17.
\<close>

theorem drawn_zoom_capped:
  assumes "mode s = JStr ''edit''" and "int (length (zones s)) < limit opts"
  shows "\<exists>z. zones (state_of (on_created E opts d s)) = zones s @ [z] \<and>
             zoom z = Math_min (map_zoom d) (Fin 17) \<and>
             \<not> num_less (Fin 17) (zoom z) \<and>
             (\<forall>r. map_zoom d = Fin r \<longrightarrow> zoom z = Fin (min r 17))"
  by (simp add: on_created_zones [OF assms] Math_min_17_le Math_min_Fin)

theorem drawn_zoom_capped_witness:
  "mode (mount sample_env sample_opts) = JStr ''edit''
   \<and> int (length (zones (mount sample_env sample_opts))) < limit sample_opts
   \<and> map_zoom (sample_draw\<lparr>map_zoom := Fin 18\<rparr>) = Fin 18
   \<and> map zoom (zones (state_of (on_created sample_env sample_opts
        (sample_draw\<lparr>map_zoom := Fin 18\<rparr>) (mount sample_env sample_opts)))) = [Fin 17]"
proof -
  have m: "mode (mount sample_env sample_opts) = JStr ''edit''"
    by (simp add: mount_sample)
  have l: "int (length (zones (mount sample_env sample_opts))) < limit sample_opts"
    by (simp add: sample_opts_fields)
  from drawn_zoom_capped [OF m l, of sample_env "sample_draw\<lparr>map_zoom := Fin 18\<rparr>"]
  show ?thesis
    by (auto simp: m sample_opts_fields)
qed

section \<open>Imported fields\<close>

text \<open>
  Claim C5, as amended. For the \<open>i\<close>-th retained entry \<open>v\<close> the imported zone has:
  as id \<open>v.id\<close> if that is truthy, else the string generated at that moment, \<open>z_\<close>, the
  hexadecimal digits of the random number, \<open>_\<close> and the clock's reading in hexadecimal;
  as \<open>createdAt\<close> \<open>Number(v.createdAt)\<close> unless that is \<open>0\<close> or \<open>NaN\<close>, then the clock's
  reading; the geometry of \<open>v\<close>; as center \<open>v.center\<close> if that is an array, of any
  length, else the center of the geometry's bounds when Leaflet gives valid ones, else the
  fixed fallback coordinate; as zoom \<open>Number(v.zoom)\<close> unless that is \<open>0\<close> or \<open>NaN\<close>,
  then 14.
\<close>

theorem imported_zone_fields:
  assumes "raw_zones payload = JArr xs"
    and "normalizeImport E ts payload l = Inr zs"
    and "i < length zs"
  shows "length zs = length (slice0 xs l) \<and>
     (let v = slice0 xs l ! i;
          z = zs ! i;
          c = Number (toNumber E) (getprop v ''createdAt'');
          m = Number (toNumber E) (getprop v ''zoom'')
      in zone_id z = (if truthy (getprop v ''id'') then getprop v ''id''
                      else JStr (''z_'' @ rnd (ts i) @ ''_'' @ toString16 (idNow (ts i))))
       \<and> createdAt z = (if c = NaN \<or> c = Fin 0 then Fin (of_nat (now (ts i))) else c)
       \<and> geojson z = getprop v ''geojson''
       \<and> truthy (geojson z)
       \<and> center z =
           (if isArray (getprop v ''center'') then getprop v ''center''
            else case safeBoundsFromGeo E (getprop v ''geojson'') of
                   Some b \<Rightarrow> JArr [JNum (center_lat b), JNum (center_lng b)]
                 | None \<Rightarrow> fallback_center)
       \<and> zoom z = (if m = NaN \<or> m = Fin 0 then Fin 14 else m))"
proof -
  from assms(2) obtain ys where
    ys: "import_entries E ts 0 (slice0 xs l) = Inr ys" and zs: "zs = map (infer_center E) ys"
    by (auto simp: normalizeImport_array [OF assms(1)] split: sum.splits)
  have len: "length ys = length (slice0 xs l)"
    by (rule length_import_entries [OF ys])
  with assms(3) zs have i: "i < length (slice0 xs l)" by simp
  from import_entries_nth [OF ys i]
  have e: "import_entry E (ts i) (slice0 xs l ! i) = Inr (ys ! i)" by simp
  then have g: "truthy (getprop (slice0 xs l ! i) ''geojson'')"
    by (simp add: import_entry_def split: if_splits)
  from e g have y: "ys ! i = \<lparr>
        zone_id = or_else (getprop (slice0 xs l ! i) ''id'') (makeId (ts i)),
        createdAt = num_or_else (Number (toNumber E) (getprop (slice0 xs l ! i) ''createdAt''))
                      (Fin (of_nat (now (ts i)))),
        geojson = getprop (slice0 xs l ! i) ''geojson'',
        center = (if isArray (getprop (slice0 xs l ! i) ''center'')
                  then getprop (slice0 xs l ! i) ''center'' else JNull),
        zoom = num_or_else (Number (toNumber E) (getprop (slice0 xs l ! i) ''zoom'')) (Fin 14) \<rparr>"
    by (simp add: import_entry_def)
  from i len zs have z: "zs ! i = infer_center E (ys ! i)" by simp
  have "length zs = length (slice0 xs l)"
    using len zs by simp
  moreover have "zone_id (zs ! i) = (if truthy (getprop (slice0 xs l ! i) ''id'')
      then getprop (slice0 xs l ! i) ''id''
      else JStr (''z_'' @ rnd (ts i) @ ''_'' @ toString16 (idNow (ts i))))"
    by (simp add: z y or_else_def makeId_def)
  moreover have "createdAt (zs ! i) =
      (if Number (toNumber E) (getprop (slice0 xs l ! i) ''createdAt'') = NaN
          \<or> Number (toNumber E) (getprop (slice0 xs l ! i) ''createdAt'') = Fin 0
       then Fin (of_nat (now (ts i)))
       else Number (toNumber E) (getprop (slice0 xs l ! i) ''createdAt''))"
    by (simp add: z y num_or_else_def num_truthy_def)
  moreover have "geojson (zs ! i) = getprop (slice0 xs l ! i) ''geojson''"
    by (simp add: z y)
  moreover have "center (zs ! i) =
      (if isArray (getprop (slice0 xs l ! i) ''center'') then getprop (slice0 xs l ! i) ''center''
       else case safeBoundsFromGeo E (getprop (slice0 xs l ! i) ''geojson'') of
              Some b \<Rightarrow> JArr [JNum (center_lat b), JNum (center_lng b)]
            | None \<Rightarrow> fallback_center)"
    by (simp add: z y infer_center_center isArray_truthy)
  moreover have "zoom (zs ! i) =
      (if Number (toNumber E) (getprop (slice0 xs l ! i) ''zoom'') = NaN
          \<or> Number (toNumber E) (getprop (slice0 xs l ! i) ''zoom'') = Fin 0
       then Fin 14
       else Number (toNumber E) (getprop (slice0 xs l ! i) ''zoom''))"
    by (simp add: z y num_or_else_def num_truthy_def)
  ultimately show ?thesis
    using g by (simp add: Let_def)
qed

lemma import_bare_entries:
  "normalizeImport sample_env sample_ticks
     (JArr [JObj [(''geojson'', sample_geo)], JObj [(''geojson'', empty_geo)]]) 2
   = Inr [\<lparr> zone_id = JStr ''z_a3f_1a'', createdAt = Fin 26, geojson = sample_geo,
            center = JArr [JNum (Fin 43), JNum (Fin 77)], zoom = Fin 14 \<rparr>,
          \<lparr> zone_id = JStr ''z_a3f_1b'', createdAt = Fin 27, geojson = empty_geo,
            center = fallback_center, zoom = Fin 14 \<rparr>]"
  by (simp add: normalizeImport_def raw_zones_def slice0_def import_entry_def infer_center_def
      sample_geos makeId_sample makeId_sample_Suc or_else_def num_or_else_def num_truthy_def
      sample_env_fields sample_bounds_fields sample_ticks_fields)

lemma import_odd_entry:
  "normalizeImport sample_env sample_ticks
     (JArr [JObj [(''id'', JNum (Fin 0)), (''geojson'', sample_geo), (''center'', JArr []),
                  (''zoom'', JNum PosInfinity)]]) 2
   = Inr [\<lparr> zone_id = JStr ''z_a3f_1a'', createdAt = Fin 26, geojson = sample_geo,
            center = JArr [], zoom = PosInfinity \<rparr>]"
  by (simp add: normalizeImport_def raw_zones_def slice0_def import_entry_def infer_center_def
      sample_geos makeId_sample or_else_def num_or_else_def num_truthy_def
      sample_env_fields sample_ticks_fields)

theorem imported_zone_fields_witness:
  "raw_zones (JArr [JObj [(''geojson'', sample_geo)], JObj [(''geojson'', empty_geo)]])
     = JArr [JObj [(''geojson'', sample_geo)], JObj [(''geojson'', empty_geo)]]
   \<and> normalizeImport sample_env sample_ticks
        (JArr [JObj [(''geojson'', sample_geo)], JObj [(''geojson'', empty_geo)]]) 2
       = Inr [\<lparr> zone_id = JStr ''z_a3f_1a'', createdAt = Fin 26, geojson = sample_geo,
                center = JArr [JNum (Fin 43), JNum (Fin 77)], zoom = Fin 14 \<rparr>,
              \<lparr> zone_id = JStr ''z_a3f_1b'', createdAt = Fin 27, geojson = empty_geo,
                center = fallback_center, zoom = Fin 14 \<rparr>]
   \<and> ''z_'' @ rnd (sample_ticks 0) @ ''_'' @ toString16 (idNow (sample_ticks 0)) = ''z_a3f_1a''
   \<and> ''z_'' @ rnd (sample_ticks (Suc 0)) @ ''_'' @ toString16 (idNow (sample_ticks (Suc 0)))
       = ''z_a3f_1b''
   \<and> safeBoundsFromGeo sample_env sample_geo = Some sample_bounds
   \<and> safeBoundsFromGeo sample_env empty_geo = None"
proof -
  let ?p = "JArr [JObj [(''geojson'', sample_geo)], JObj [(''geojson'', empty_geo)]]"
  let ?zs = "[\<lparr> zone_id = JStr ''z_a3f_1a'', createdAt = Fin 26, geojson = sample_geo,
                center = JArr [JNum (Fin 43), JNum (Fin 77)], zoom = Fin 14 \<rparr>,
              \<lparr> zone_id = JStr ''z_a3f_1b'', createdAt = Fin 27, geojson = empty_geo,
                center = fallback_center, zoom = Fin 14 \<rparr>]"
  have r: "raw_zones ?p = ?p"
    by (simp add: raw_zones_def)
  have i0: "0 < length ?zs" and i1: "1 < length ?zs"
    by simp_all
  from imported_zone_fields [OF r import_bare_entries i0]
       imported_zone_fields [OF r import_bare_entries i1]
  show ?thesis
    by (simp add: r import_bare_entries slice0_def Let_def safeBounds_sample sample_geos)
qed

text \<open>
  Claim C5 as stated fails on an entry with the id \<open>0\<close>, an empty array as center and
  the zoom \<open>Infinity\<close>: the id is present and yet replaced, the center is not a
  two-element array and yet kept (although the geometry has valid bounds to derive one
  from), the zoom is not finite and yet kept.
\<close>

theorem imported_center_zoom_id_counterexample:
  "normalizeImport sample_env sample_ticks
     (JArr [JObj [(''id'', JNum (Fin 0)), (''geojson'', sample_geo), (''center'', JArr []),
                  (''zoom'', JNum PosInfinity)]]) 2
   = Inr [\<lparr> zone_id = JStr ''z_a3f_1a'', createdAt = Fin 26, geojson = sample_geo,
            center = JArr [], zoom = PosInfinity \<rparr>]
   \<and> safeBoundsFromGeo sample_env sample_geo = Some sample_bounds"
  by (simp add: import_odd_entry safeBounds_sample)

section \<open>Export and import\<close>













section \<open>Replacing the zone set\<close>

text \<open>
  Claim C7, as amended. For a limit of at least 0 and an input array longer than the
  limit whose first \<open>limit\<close> entries carry a geometry, \<open>setZones\<close> stores exactly
  \<open>limit\<close> zones: what importing the first \<open>limit\<close> entries alone gives, the rest of the
  input being dropped without a word. The \<open>i\<close>-th stored zone is built from the \<open>i\<close>-th
  entry by the import's field rules: it has that entry's geometry, and it is that entry
  itself whenever the entry is a zone with a truthy id, an array as center, and a
  \<open>createdAt\<close> and a zoom other than \<open>0\<close> and \<open>NaN\<close>. In edit mode a file import of the
  same payload stores the same zones.
\<close>

theorem replace_all_truncates:
  assumes "raw_zones payload = JArr xs"
    and "0 \<le> limit opts"
    and "limit opts < int (length xs)"
    and "\<forall>v\<in>set (take (nat (limit opts)) xs). truthy (getprop v ''geojson'')"
  shows "length (zones (state_of (setZones E opts payload ts s))) = nat (limit opts)
     \<and> normalizeImport E ts (JArr (take (nat (limit opts)) xs)) (limit opts)
         = Inr (zones (state_of (setZones E opts payload ts s)))
     \<and> (\<forall>i<nat (limit opts).
           geojson (zones (state_of (setZones E opts payload ts s)) ! i)
             = getprop (xs ! i) ''geojson''
         \<and> (\<forall>z. stable_zone z \<and> xs ! i = zone_value z \<longrightarrow>
               zones (state_of (setZones E opts payload ts s)) ! i = z))
     \<and> (mode s = JStr ''edit'' \<longrightarrow>
           zones (on_import E opts (Parsed payload) ts s)
             = zones (state_of (setZones E opts payload ts s)))"
proof -
  let ?n = "nat (limit opts)"
  from assms(2) have sl: "slice0 xs (limit opts) = take ?n xs"
    by (rule slice0_nonneg)
  from assms(2) have sl': "slice0 (take ?n xs) (limit opts) = take ?n xs"
    by (simp add: slice0_nonneg)
  from import_entries_valid [OF assms(4)] obtain ys where
    ys: "import_entries E ts 0 (take ?n xs) = Inr ys"
    by blast
  from assms(3) have len: "length ys = ?n"
    using length_import_entries [OF ys] by simp
  have n: "normalizeImport E ts payload (limit opts) = Inr (map (infer_center E) ys)"
    by (simp add: normalizeImport_array [OF assms(1)] sl ys)
  have n': "normalizeImport E ts (JArr (take ?n xs)) (limit opts) = Inr (map (infer_center E) ys)"
    by (simp add: normalizeImport_def raw_zones_def sl' ys)
  have st: "zones (state_of (setZones E opts payload ts s)) = map (infer_center E) ys"
    by (simp add: zones_setZones n)
  have each: "geojson (map (infer_center E) ys ! i) = getprop (xs ! i) ''geojson''
         \<and> (\<forall>z. stable_zone z \<and> xs ! i = zone_value z \<longrightarrow> map (infer_center E) ys ! i = z)"
    if i: "i < ?n" for i
  proof -
    from i assms(3) have it: "i < length (take ?n xs)" by simp
    from import_entries_nth [OF ys it] i
    have e: "import_entry E (ts i) (xs ! i) = Inr (ys ! i)" by simp
    from i len have m: "map (infer_center E) ys ! i = infer_center E (ys ! i)" by simp
    have "geojson (map (infer_center E) ys ! i) = getprop (xs ! i) ''geojson''"
      by (simp add: m import_entry_geojson [OF e])
    moreover have "map (infer_center E) ys ! i = z" if "stable_zone z \<and> xs ! i = zone_value z" for z
    proof -
      from that e have "ys ! i = z"
        by (simp add: import_entry_stable)
      with that show ?thesis
        by (simp add: m infer_center_stable)
    qed
    ultimately show ?thesis by blast
  qed
  have "mode s = JStr ''edit'' \<longrightarrow>
        zones (on_import E opts (Parsed payload) ts s) = map (infer_center E) ys"
    by (simp add: zones_on_import n)
  with each show ?thesis
    by (simp add: st len n')
qed

lemma set_three_done:
  "setZones sample_env sample_opts
     (JArr [zone_value sample_zone, zone_value other_zone, JObj []]) sample_ticks drawn_state
   = Done (drawn_state\<lparr>zones := [sample_zone, other_zone], hint := LimitReachedHint,
             warn := True, drawHidden := True\<rparr>)"
  by (simp add: setZones_def normalizeImport_def raw_zones_def slice0_def sample_opts_fields
      import_entry_stable stable_samples infer_center_stable applyMode_def render_two_samples
      applyDrawAvailability_def drawn_state_eq)

theorem replace_all_truncates_witness:
  "raw_zones (JArr [zone_value sample_zone, zone_value other_zone, JObj []])
     = JArr [zone_value sample_zone, zone_value other_zone, JObj []]
   \<and> 0 \<le> limit sample_opts
   \<and> limit sample_opts < int (length [zone_value sample_zone, zone_value other_zone, JObj []])
   \<and> truthy (getprop (zone_value sample_zone) ''geojson'')
   \<and> truthy (getprop (zone_value other_zone) ''geojson'')
   \<and> stable_zone sample_zone \<and> stable_zone other_zone
   \<and> mode drawn_state = JStr ''edit''
   \<and> setZones sample_env sample_opts
        (JArr [zone_value sample_zone, zone_value other_zone, JObj []]) sample_ticks drawn_state
       = Done (drawn_state\<lparr>zones := [sample_zone, other_zone], hint := LimitReachedHint,
                 warn := True, drawHidden := True\<rparr>)
   \<and> zones (on_import sample_env sample_opts
        (Parsed (JArr [zone_value sample_zone, zone_value other_zone, JObj []]))
        sample_ticks drawn_state) = [sample_zone, other_zone]"
proof -
  have r: "raw_zones (JArr [zone_value sample_zone, zone_value other_zone, JObj []])
     = JArr [zone_value sample_zone, zone_value other_zone, JObj []]"
    by (simp add: raw_zones_def)
  have l0: "0 \<le> limit sample_opts"
    and l: "limit sample_opts < int (length [zone_value sample_zone, zone_value other_zone, JObj []])"
    by (simp_all add: sample_opts_fields)
  have g: "truthy (getprop (zone_value sample_zone) ''geojson'')"
    "truthy (getprop (zone_value other_zone) ''geojson'')"
    by (simp_all add: zone_value_def sample_zone_fields other_zone_fields sample_geos)
  then have v: "\<forall>v\<in>set (take (nat (limit sample_opts))
      [zone_value sample_zone, zone_value other_zone, JObj []]). truthy (getprop v ''geojson'')"
    by (simp add: sample_opts_fields take_Cons')
  have m: "mode drawn_state = JStr ''edit''"
    by (simp add: drawn_state_eq)
  from replace_all_truncates [OF r l0 l v, of sample_env sample_ticks drawn_state]
  show ?thesis
    by (simp add: r l0 l g m set_three_done stable_samples)
qed

lemma import_entry_zoom0:
  "import_entry E t (zone_value (sample_zone\<lparr>zoom := Fin 0\<rparr>)) = Inr (sample_zone\<lparr>zoom := Fin 14\<rparr>)"
  by (simp add: import_entry_def zone_value_def sample_zone_def sample_geos or_else_def
      num_or_else_def num_truthy_def)

lemma stable_zoom14: "stable_zone (sample_zone\<lparr>zoom := Fin 14\<rparr>)"
  using stable_samples(1) by (simp add: stable_zone_def num_truthy_def)

lemma set_zoom0_first:
  "zones (state_of (setZones sample_env sample_opts
     (JArr [zone_value (sample_zone\<lparr>zoom := Fin 0\<rparr>), zone_value other_zone, JObj []])
     sample_ticks (mount sample_env sample_opts)))
   = [sample_zone\<lparr>zoom := Fin 14\<rparr>, other_zone]"
  by (simp add: zones_setZones normalizeImport_def raw_zones_def slice0_def sample_opts_fields
      import_entry_stable stable_samples infer_center_stable import_entry_zoom0 stable_zoom14)

lemma set_bare_first:
  "setZones sample_env sample_opts
     (JArr [JObj [], zone_value sample_zone, zone_value other_zone])
     sample_ticks (mount sample_env sample_opts)
   = Threw MissingGeometry (mount sample_env sample_opts)"
  by (simp add: setZones_def normalizeImport_def raw_zones_def slice0_def sample_opts_fields
      import_entry_def)

text \<open>
  Claim C7 as stated fails on inputs of three entries with limit 2. When the first entry
  is a zone stored at zoom 0, the stored set has two zones, but its first one has zoom
  14 and so is not the first input entry. When the first entry has no geometry the input
  is rejected and the stored set stays empty.
\<close>

theorem replace_all_counterexample:
  "limit sample_opts = 2
   \<and> length [zone_value (sample_zone\<lparr>zoom := Fin 0\<rparr>), zone_value other_zone, JObj []] = 3
   \<and> zones (state_of (setZones sample_env sample_opts
        (JArr [zone_value (sample_zone\<lparr>zoom := Fin 0\<rparr>), zone_value other_zone, JObj []])
        sample_ticks (mount sample_env sample_opts)))
       = [sample_zone\<lparr>zoom := Fin 14\<rparr>, other_zone]
   \<and> zone_value (sample_zone\<lparr>zoom := Fin 14\<rparr>) \<noteq> zone_value (sample_zone\<lparr>zoom := Fin 0\<rparr>)
   \<and> length [JObj [], zone_value sample_zone, zone_value other_zone] = 3
   \<and> setZones sample_env sample_opts
        (JArr [JObj [], zone_value sample_zone, zone_value other_zone])
        sample_ticks (mount sample_env sample_opts)
       = Threw MissingGeometry (mount sample_env sample_opts)
   \<and> zones (mount sample_env sample_opts) = []"
  by (simp add: sample_opts_fields set_zoom0_first set_bare_first) (simp add: zone_value_def)

section \<open>Focus\<close>

lemma well_formed_iff:
  "well_formed E z \<longleftrightarrow>
     bounds_or_zoom E z \<and>
     (safeBoundsFromGeo E (geojson z) = None \<longrightarrow> setView_ok E (center z) (zoom z))"
  by (auto simp: well_formed_def bounds_or_zoom_def)

lemma set_splice1: "set (splice1 xs i) \<subseteq> set xs"
  by (auto simp: splice1_def dest: in_set_takeD in_set_dropD)

lemma zones_on_created:
  "zones (state_of (on_created E opts d s)) = zones s \<or>
   (\<exists>z. zones (state_of (on_created E opts d s)) = zones s @ [z] \<and> geojson z = layer_geo d)"
proof (cases "mode s = JStr ''edit'' \<and> int (length (zones s)) < limit opts")
  case True
  then show ?thesis by (simp add: on_created_zones)
next
  case False
  then show ?thesis by (auto simp: on_created_def)
qed

lemma step_keeps_bounds_or_zoom:
  assumes inv: "\<forall>z\<in>set (zones s). bounds_or_zoom E z"
    and tools: "drawn_with_bounds E e"
  shows "\<forall>z\<in>set (zones (step E opts e s)). bounds_or_zoom E z"
proof (cases e)
  case (Created d)
  with tools have b: "safeBoundsFromGeo E (layer_geo d) \<noteq> None" by simp
  from zones_on_created [of E opts d s] show ?thesis
  proof
    assume "zones (state_of (on_created E opts d s)) = zones s"
    with inv Created show ?thesis by simp
  next
    assume "\<exists>z. zones (state_of (on_created E opts d s)) = zones s @ [z] \<and> geojson z = layer_geo d"
    then obtain z where "zones (state_of (on_created E opts d s)) = zones s @ [z]"
      and "geojson z = layer_geo d"
      by blast
    with inv b Created show ?thesis
      by (auto simp: bounds_or_zoom_def)
  qed
next
  case (GridClick c)
  show ?thesis
  proof (cases c)
    case (OnDel i)
    with GridClick inv set_splice1 [of "zones s"] show ?thesis
      by (auto simp: Let_def)
  next
    case (OnCard i)
    with GridClick inv show ?thesis by (simp add: focusZoneById_def)
  next
    case Elsewhere
    with GridClick inv show ?thesis by simp
  qed
next
  case ExportClick
  with inv show ?thesis by simp
next
  case (ImportChange f ts)
  with inv show ?thesis
    by (auto simp: zones_on_import bounds_or_zoom_def split: picked.splits sum.splits if_splits
             dest: normalizeImport_zoom)
next
  case ClearAll
  with inv show ?thesis by (simp add: on_clear_def)
next
  case ToggleMode
  with inv show ?thesis by (simp add: on_toggle_def)
next
  case (SetMode m)
  with inv show ?thesis by (simp add: setMode_def)
next
  case (SetZones p ts)
  with inv show ?thesis
    by (auto simp: zones_setZones bounds_or_zoom_def split: sum.splits dest: normalizeImport_zoom)
next
  case (Focus i)
  with inv show ?thesis by (simp add: focus_def focusZoneById_def)
qed

lemma tools_zones_bounds_or_zoom:
  "reachable_by_tools E opts s \<Longrightarrow> \<forall>z\<in>set (zones s). bounds_or_zoom E z"
proof (induction rule: reachable_by_tools.induct)
  case tools_mounted
  then show ?case by simp
next
  case (tools_stepped s e)
  from tools_stepped.IH tools_stepped.hyps(2) show ?case
    by (rule step_keeps_bounds_or_zoom)
qed

lemma focusZone_well_formed:
  assumes "well_formed E z"
  shows "focusZone E (Some z) s =
     (case safeBoundsFromGeo E (geojson z) of
        Some b \<Rightarrow> Done (s\<lparr>view := FitBounds b 30 30\<rparr>)
      | None \<Rightarrow> Done (s\<lparr>view := SetView (center z) (zoom z)\<rparr>))"
  using assms
  by (auto simp: well_formed_def num_or_else_def split: option.splits)

text \<open>
  Claim C9. A well-formed zone is one the main map can be brought to: Leaflet finds valid
  bounds for its geometry, or else the zone has a zoom (not \<open>0\<close>, not \<open>NaN\<close>) and a
  center that \<open>setView\<close> accepts. Every zone the widget stores has bounds or such a
  zoom (\<open>tools_zones_bounds_or_zoom\<close>), since an import never stores the zoom \<open>0\<close> and
  the draw tools only make shapes with bounds. On a well-formed zone \<open>focus\<close> returns,
  with a result fixed by the zone: the main map fitted to the bounds with padding 30, 30
  if the geometry has valid ones, else set to \<open>zone.center\<close> at \<open>zone.zoom\<close>; nothing
  else changes. With no zone of the given id in the set, \<open>focus\<close> returns and changes
  nothing.
\<close>

theorem focus_target:
  "(JStr i \<notin> zone_id ` set (zones s) \<longrightarrow> focus E i s = Done s)
   \<and> (List.find (\<lambda>z. zone_id z = JStr i) (zones s) = Some z \<longrightarrow> well_formed E z \<longrightarrow>
        (\<forall>b. geoJSON E (geojson z) = Some (Layer (Some b)) \<and> isValid b \<longrightarrow>
           focus E i s = Done (s\<lparr>view := FitBounds b 30 30\<rparr>))
      \<and> (\<not> (\<exists>b. geoJSON E (geojson z) = Some (Layer (Some b)) \<and> isValid b) \<longrightarrow>
           focus E i s = Done (s\<lparr>view := SetView (center z) (zoom z)\<rparr>)))"
proof (intro conjI allI impI)
  assume "JStr i \<notin> zone_id ` set (zones s)"
  then show "focus E i s = Done s"
    by (simp add: focus_def focusZoneById_def find_absent)
next
  fix b
  assume f: "List.find (\<lambda>z. zone_id z = JStr i) (zones s) = Some z"
    and w: "well_formed E z"
    and "geoJSON E (geojson z) = Some (Layer (Some b)) \<and> isValid b"
  then have "safeBoundsFromGeo E (geojson z) = Some b"
    by (simp add: safeBoundsFromGeo_Some)
  with f show "focus E i s = Done (s\<lparr>view := FitBounds b 30 30\<rparr>)"
    by (simp add: focus_def focusZoneById_def focusZone_well_formed [OF w] del: focusZone.simps)
next
  assume f: "List.find (\<lambda>z. zone_id z = JStr i) (zones s) = Some z"
    and w: "well_formed E z"
    and "\<not> (\<exists>b. geoJSON E (geojson z) = Some (Layer (Some b)) \<and> isValid b)"
  then have "safeBoundsFromGeo E (geojson z) = None"
    by (cases "safeBoundsFromGeo E (geojson z)") (simp_all add: safeBoundsFromGeo_Some)
  with f show "focus E i s = Done (s\<lparr>view := SetView (center z) (zoom z)\<rparr>)"
    by (simp add: focus_def focusZoneById_def focusZone_well_formed [OF w] del: focusZone.simps)
qed

lemma well_formed_samples: "well_formed sample_env sample_zone" "well_formed sample_env other_zone"
  by (simp_all add: well_formed_def sample_zone_fields other_zone_fields safeBounds_sample
      sample_env_fields num_truthy_def)

lemma two_zone_state_by_tools: "reachable_by_tools sample_env sample_opts two_zone_state"
proof -
  have "reachable_by_tools sample_env sample_opts
     (step sample_env sample_opts
        (SetZones (JArr [zone_value sample_zone, zone_value other_zone]) sample_ticks)
        (mount sample_env sample_opts))"
    by (intro reachable_by_tools.intros) simp
  then show ?thesis
    by (simp add: two_zone_state_def)
qed

lemma focus_empty_center_throws:
  "focus sample_env ''z_b07_2c'' (two_zone_state\<lparr>zones := [other_zone\<lparr>center := JArr []\<rparr>]\<rparr>)
     = Threw LeafletError (two_zone_state\<lparr>zones := [other_zone\<lparr>center := JArr []\<rparr>]\<rparr>)"
  by (simp add: focus_def focusZoneById_def other_zone_fields safeBounds_sample sample_env_fields)

theorem focus_target_witness:
  "reachable_by_tools sample_env sample_opts two_zone_state
   \<and> view two_zone_state = SetView fallback_center (Fin 12)
   \<and> JStr ''z_0_0'' \<notin> zone_id ` set (zones two_zone_state)
   \<and> focus sample_env ''z_0_0'' two_zone_state = Done two_zone_state
   \<and> List.find (\<lambda>z. zone_id z = JStr ''z_a3f_1a'') (zones two_zone_state) = Some sample_zone
   \<and> well_formed sample_env sample_zone
   \<and> geoJSON sample_env (geojson sample_zone) = Some (Layer (Some sample_bounds))
   \<and> isValid sample_bounds
   \<and> focus sample_env ''z_a3f_1a'' two_zone_state
       = Done (two_zone_state\<lparr>view := FitBounds sample_bounds 30 30\<rparr>)
   \<and> List.find (\<lambda>z. zone_id z = JStr ''z_b07_2c'') (zones two_zone_state) = Some other_zone
   \<and> well_formed sample_env other_zone
   \<and> geoJSON sample_env (geojson other_zone) = Some (Layer (Some no_bounds))
   \<and> \<not> isValid no_bounds
   \<and> focus sample_env ''z_b07_2c'' two_zone_state
       = Done (two_zone_state\<lparr>view := SetView (JArr [JNum (Fin 43), JNum (Fin 76)]) (Fin 13)\<rparr>)"
proof -
  have z: "zones two_zone_state = [sample_zone, other_zone]"
    and v: "view two_zone_state = SetView fallback_center (Fin 12)"
    by (simp_all add: two_zone_state_eq)
  from focus_target [where i = "''z_0_0''" and s = two_zone_state and E = sample_env]
       focus_target [where i = "''z_a3f_1a''" and s = two_zone_state and z = sample_zone
         and E = sample_env]
       focus_target [where i = "''z_b07_2c''" and s = two_zone_state and z = other_zone
         and E = sample_env]
  show ?thesis
    by (simp add: z v sample_zone_fields other_zone_fields well_formed_samples sample_env_fields
        sample_bounds_fields two_zone_state_by_tools)
qed

end
